theory Spec2Isabelle
  imports Main
begin

section \<open>Data model\<close>

text \<open>
  The rows of the entity store that the foreman commands read and write. Primary keys and
  foreign keys are natural numbers, timestamps are integers. Many-to-many relations are
  association tables of key pairs, as in the store.
\<close>

record Sample =
  s_id :: nat
  source_database :: string
  computed_files :: "nat list"

record OriginalFile =
  of_id :: nat
  filename :: string
  has_raw :: bool
  is_downloaded :: bool

record Experiment =
  e_id :: nat
  accession_code :: string

record OrganismIndex =
  salmon_version :: string
  oi_created_at :: int

record ComputationalResult =
  cr_id :: nat
  processor_name :: string
  organism_index :: OrganismIndex
  cr_created_at :: int
  cr_samples :: "nat list"

record ProcessorJob =
  pj_id :: nat
  pipeline_applied :: string
  ram_amount :: int

record ProcessorJobOriginalFileAssociation =
  original_file :: nat
  processor_job :: nat

text \<open>
  Modelled from the spec: the \<open>ProcessorPipeline\<close> enumeration of
  \<open>data_refinery_common.job_lookup\<close> is not among the sources. Its members are the closed
  set the specification lists, \<open>NO_OP\<close> (named by the downloader test) and a catch-all for
  the members the specification leaves open; \<open>pipeline_value\<close> is the member's \<open>.value\<close>.
\<close>

datatype ProcessorPipeline =
  NONE | NO_OP | AFFY_TO_PCL | AGILENT_TWOCOLOR_TO_PCL | SALMON | TXIMPORT | OTHER string

fun pipeline_value :: "ProcessorPipeline \<Rightarrow> string" where
  "pipeline_value NONE = ''NONE''"
| "pipeline_value NO_OP = ''NO_OP''"
| "pipeline_value AFFY_TO_PCL = ''AFFY_TO_PCL''"
| "pipeline_value AGILENT_TWOCOLOR_TO_PCL = ''AGILENT_TWOCOLOR_TO_PCL''"
| "pipeline_value SALMON = ''SALMON''"
| "pipeline_value TXIMPORT = ''TXIMPORT''"
| "pipeline_value (OTHER v) = v"

datatype exn = AttributeError | IntegrityError | SystemExit int | QueueError

text \<open>
  Everything a command does to its surroundings is appended to a journal, in the order in
  which it happens: rows saved, local files deleted, submissions to the dispatch queue
  (with the exception the submission raised, if any), requests for a downloader job (the
  keys of its files and the force flag) and sleeps (in seconds).
\<close>

datatype effect =
  SaveProcessorJob ProcessorJob
| SaveAssociation ProcessorJobOriginalFileAssociation
| SaveOriginalFile OriginalFile
| DeleteLocalFile nat
| SendJob ProcessorPipeline ProcessorJob "exn option"
| CreateDownloaderJob "nat list" bool
| Sleep nat

record store =
  samples :: "Sample list"
  original_files :: "OriginalFile list"
  original_file_sample_associations :: "(nat \<times> nat) list"
  experiment_sample_associations :: "(nat \<times> nat) list"
  computational_results :: "ComputationalResult list"
  processor_jobs :: "ProcessorJob list"
  processor_job_id_seq :: nat
  processor_job_original_file_associations :: "ProcessorJobOriginalFileAssociation list"
  journal :: "effect list"

text \<open>
  The collaborators that the commands import from \<open>data_refinery_common\<close>, which is not
  among the sources, are parameters: the pipeline selector, the resource sizing policy (the
  job it receives is a fresh one of which only \<open>pipeline_applied\<close> is set), the dispatch
  queue (\<open>None\<close>: accepted; \<open>Some e\<close>: the submission raised \<open>e\<close>), the query for the
  quantification results of an experiment, and the name of the quantification processor.
\<close>

text \<open>
  The outcome of an operation that can raise: \<open>Inr\<close> with the store it leaves when it
  returns, \<open>Inl\<close> with the exception and the store as it is at the raise (every save is
  committed on its own, so what was saved before the raise stays).
\<close>

type_synonym outcome = "(exn \<times> store) + store"

record env =
  determine_processor_pipeline :: "Sample option \<Rightarrow> OriginalFile \<Rightarrow> ProcessorPipeline"
  determine_ram_amount :: "Sample option \<Rightarrow> string \<Rightarrow> int"
  send_job :: "ProcessorPipeline \<Rightarrow> ProcessorJob \<Rightarrow> exn option"
  get_quant_results_for_experiment :: "store \<Rightarrow> Experiment \<Rightarrow> ComputationalResult list"
  SALMON_QUANT_name :: string

section \<open>Store queries\<close>

text \<open>\<open>original_file.samples\<close>: the samples associated with a file, in table order.\<close>

definition file_samples :: "store \<Rightarrow> OriginalFile \<Rightarrow> Sample list" where
  "file_samples st f =
     filter (\<lambda>s. (of_id f, s_id s) \<in> set (original_file_sample_associations st)) (samples st)"

text \<open>\<open>sample.original_files.all()\<close>: the files associated with a sample, in table order.\<close>

definition sample_original_files :: "store \<Rightarrow> Sample \<Rightarrow> OriginalFile list" where
  "sample_original_files st s =
     filter (\<lambda>f. (of_id f, s_id s) \<in> set (original_file_sample_associations st))
       (original_files st)"

text \<open>\<open>experiment.samples.all()\<close>.\<close>

definition experiment_samples :: "store \<Rightarrow> Experiment \<Rightarrow> Sample list" where
  "experiment_samples st e =
     filter (\<lambda>s. (e_id e, s_id s) \<in> set (experiment_sample_associations st)) (samples st)"

text \<open>
  \<open>.first()\<close> on an unordered query set: the row with the least primary key, or \<open>None\<close>.
\<close>

definition qs_first :: "Sample list \<Rightarrow> Sample option" where
  "qs_first xs = (case sort_key s_id xs of [] \<Rightarrow> None | x # _ \<Rightarrow> Some x)"

text \<open>
  \<open>row.save()\<close> of an original file that carries a primary key: the row with that key is
  replaced; a key the table does not hold is inserted.
\<close>

definition save_original_file :: "OriginalFile \<Rightarrow> OriginalFile list \<Rightarrow> OriginalFile list" where
  "save_original_file f rows =
     (if of_id f \<in> set (map of_id rows)
      then map (\<lambda>g. if of_id g = of_id f then f else g) rows
      else rows @ [f])"

section \<open>Job factory\<close>

text \<open>
  The body of the loop of the branch without a pipeline: the local copy is deleted, the
  downloaded flag is cleared and the file is saved.
\<close>

definition clear_downloaded :: "OriginalFile \<Rightarrow> store \<Rightarrow> store" where
  "clear_downloaded f st =
     (let cleared = f\<lparr>is_downloaded := False\<rparr> in
      st\<lparr>original_files := save_original_file cleared (original_files st),
         journal := journal st @ [DeleteLocalFile (of_id f), SaveOriginalFile cleared]\<rparr>)"

text \<open>Saving a new job draws its primary key from the table's sequence.\<close>

definition save_processor_job :: "ProcessorJob \<Rightarrow> store \<Rightarrow> store" where
  "save_processor_job job st =
     st\<lparr>processor_jobs := processor_jobs st @ [job],
        processor_job_id_seq := pj_id job,
        journal := journal st @ [SaveProcessorJob job]\<rparr>"

text \<open>
  Saving an association. Modelled from the spec: the models are not among the sources; the
  specification states that the pair of job and file of an association is unique, so the
  store refuses a pair it already holds and the save raises \<open>IntegrityError\<close>.
\<close>

definition save_association :: "ProcessorJob \<Rightarrow> OriginalFile \<Rightarrow> store \<Rightarrow> outcome" where
  "save_association job f st =
     (let assoc = \<lparr>original_file = of_id f, processor_job = pj_id job\<rparr> in
      if assoc \<in> set (processor_job_original_file_associations st)
      then Inl (IntegrityError, st)
      else Inr (st\<lparr>processor_job_original_file_associations :=
                    processor_job_original_file_associations st @ [assoc],
                  journal := journal st @ [SaveAssociation assoc]\<rparr>))"

text \<open>The loop that saves one association per file; it ends at the first raise.\<close>

fun save_associations :: "ProcessorJob \<Rightarrow> OriginalFile list \<Rightarrow> store \<Rightarrow> outcome" where
  "save_associations job [] st = Inr st"
| "save_associations job (f # fs) st =
     (case save_association job f st of
        Inl raised \<Rightarrow> Inl raised
      | Inr st' \<Rightarrow> save_associations job fs st')"

text \<open>
  \<open>create_processor_job_for_original_files\<close>. The function raises at the attribute access
  \<open>sample_object.id\<close> of the log call in the branch without a pipeline, when the first file
  has no sample, and when the store refuses an association. The bare \<open>except\<close> swallows
  whatever the submission raises.
\<close>

definition create_processor_job_for_original_files ::
  "env \<Rightarrow> OriginalFile list \<Rightarrow> store \<Rightarrow> outcome" where
  "create_processor_job_for_original_files env fs st =
     (if length fs = 0 then Inr st
      else
        let sample_object = qs_first (file_samples st (fs ! 0));
            pipeline_to_apply = determine_processor_pipeline env sample_object (fs ! 0)
        in
          if pipeline_to_apply = NONE then
            (case sample_object of
               None \<Rightarrow> Inl (AttributeError, st)
             | Some _ \<Rightarrow> Inr (fold clear_downloaded fs st))
          else
            let job = \<lparr>pj_id = Suc (processor_job_id_seq st),
                       pipeline_applied = pipeline_value pipeline_to_apply,
                       ram_amount = determine_ram_amount env sample_object
                                      (pipeline_value pipeline_to_apply)\<rparr>;
                st1 = save_processor_job job st
            in case save_associations job fs st1 of
                 Inl raised \<Rightarrow> Inl raised
               | Inr st2 \<Rightarrow>
                   Inr (st2\<lparr>journal := journal st2 @
                     [SendJob pipeline_to_apply job (send_job env pipeline_to_apply job)]\<rparr>))"

section \<open>Staleness detector\<close>

text \<open>
  \<open>quant_results.order_by('-organism_index__created_at')
     .values_list('organism_index__salmon_version', flat=True).distinct()\<close>:
  the ordering column is the creation time of the organism index. The query set adds the
  columns of \<open>order_by\<close> to the columns that \<open>DISTINCT\<close> compares, so the rows that are
  made distinct are the pairs of version and index creation time; the list holds the
  version of each such pair. Rows of equal time keep the order of the table.
\<close>

definition version_row :: "ComputationalResult \<Rightarrow> string \<times> int" where
  "version_row r = (salmon_version (organism_index r), oi_created_at (organism_index r))"

definition salmon_versions_of :: "ComputationalResult list \<Rightarrow> string list" where
  "salmon_versions_of quant_results =
     map fst (sort_key (\<lambda>row. - snd row) (remdups (map version_row quant_results)))"

text \<open>
  The correlated subquery: the results of the quantification processor that cover the
  sample, newest first (by the creation time of the result).
\<close>

definition newest_computational_results ::
  "env \<Rightarrow> store \<Rightarrow> Sample \<Rightarrow> ComputationalResult list" where
  "newest_computational_results env st s =
     sort_key (\<lambda>r. - cr_created_at r)
       (filter (\<lambda>r. s_id s \<in> set (cr_samples r) \<and> processor_name r = SALMON_QUANT_name env)
          (computational_results st))"

text \<open>The annotation: the version of the first row of the subquery, \<open>NULL\<close> without a row.\<close>

definition annotated_salmon_version :: "env \<Rightarrow> store \<Rightarrow> Sample \<Rightarrow> string option" where
  "annotated_salmon_version env st s =
     (case newest_computational_results env st s of
        [] \<Rightarrow> None
      | r # _ \<Rightarrow> Some (salmon_version (organism_index r)))"

text \<open>
  \<open>.exclude(salmon_version=latest)\<close> on the annotation is \<open>WHERE NOT (annotation = latest)\<close>:
  for a \<open>NULL\<close> annotation the condition is unknown and the row is not returned.
\<close>

definition samples_to_rerun :: "env \<Rightarrow> store \<Rightarrow> Experiment \<Rightarrow> string \<Rightarrow> Sample list" where
  "samples_to_rerun env st e latest =
     filter (\<lambda>s. case annotated_salmon_version env st s of
                   None \<Rightarrow> False
                 | Some v \<Rightarrow> v \<noteq> latest)
       (experiment_samples st e)"

text \<open>
  The loop over the samples found: the files of each sample are read from the store as it
  is when the sample's turn comes.
\<close>

fun rerun_samples :: "env \<Rightarrow> Sample list \<Rightarrow> store \<Rightarrow> outcome" where
  "rerun_samples env [] st = Inr st"
| "rerun_samples env (s # ss) st =
     (case create_processor_job_for_original_files env (sample_original_files st s) st of
        Inl raised \<Rightarrow> Inl raised
      | Inr st' \<Rightarrow> rerun_samples env ss st')"

definition update_salmon_versions :: "env \<Rightarrow> Experiment \<Rightarrow> store \<Rightarrow> outcome" where
  "update_salmon_versions env experiment st =
     (let quant_results = get_quant_results_for_experiment env st experiment;
          salmon_versions = salmon_versions_of quant_results
      in
        if length salmon_versions \<le> 1 then Inr st
        else
          let latest_salmon_version = salmon_versions ! 0
          in rerun_samples env (samples_to_rerun env st experiment latest_salmon_version) st)"
section \<open>The job factory of the downloader test\<close>

text \<open>
  \<open>str.upper()\<close>: the ASCII letters \<open>a\<close> to \<open>z\<close> become \<open>A\<close> to \<open>Z\<close>. A string is a list of
  bytes; the bytes of other characters are left as they are (no character outside ASCII
  has an upper case in which \<open>C\<close>, \<open>E\<close> and \<open>L\<close> follow one another).
\<close>

definition upper_char :: "char \<Rightarrow> char" where
  "upper_char c =
     (case map_of (zip ''abcdefghijklmnopqrstuvwxyz'' ''ABCDEFGHIJKLMNOPQRSTUVWXYZ'') c of
        None \<Rightarrow> c
      | Some u \<Rightarrow> u)"

definition upper :: "string \<Rightarrow> string" where
  "upper s = map upper_char s"

text \<open>\<open>sub in s\<close> on strings.\<close>

fun contains :: "string \<Rightarrow> string \<Rightarrow> bool" where
  "contains sub [] = (sub = [])"
| "contains sub (c # cs) = (take (length sub) (c # cs) = sub \<or> contains sub cs)"

text \<open>
  The pipeline that \<open>create_processor_jobs_for_original_files_no_send\<close> writes into the
  job of a file. \<open>not pipeline\<close> holds for \<open>None\<close> and for the empty string.
\<close>

definition no_send_pipeline_applied :: "string option \<Rightarrow> OriginalFile \<Rightarrow> string" where
  "no_send_pipeline_applied pipeline f =
     (let by_file =
        (if \<not> has_raw f then ''NO_OP''
         else if contains ''CEL'' (upper (filename f)) then ''AFFY_TO_PCL''
         else ''AGILENT_TWOCOLOR_TO_PCL'')
      in case pipeline of
           None \<Rightarrow> by_file
         | Some p \<Rightarrow> if p = [] then by_file else p)"

text \<open>
  The helper itself: one job and one association per file. The RAM amount of the job is not
  assigned; it is the default of the job model, a parameter here.
\<close>

fun create_processor_jobs_for_original_files_no_send ::
  "int \<Rightarrow> OriginalFile list \<Rightarrow> string option \<Rightarrow> store \<Rightarrow> outcome" where
  "create_processor_jobs_for_original_files_no_send default_ram [] pipeline st = Inr st"
| "create_processor_jobs_for_original_files_no_send default_ram (f # fs) pipeline st =
     (let job = \<lparr>pj_id = Suc (processor_job_id_seq st),
                 pipeline_applied = no_send_pipeline_applied pipeline f,
                 ram_amount = default_ram\<rparr>
      in case save_association job f (save_processor_job job st) of
           Inl raised \<Rightarrow> Inl raised
         | Inr st' \<Rightarrow>
             create_processor_jobs_for_original_files_no_send default_ram fs pipeline st')"

section \<open>Pipeline selector\<close>

text \<open>
  Modelled from the spec: \<open>determine_processor_pipeline\<close> of
  \<open>data_refinery_common.job_lookup\<close>, the pipeline selector that the job factory calls with
  the first file and its sample, is not among the sources. The rule is the one of the
  specification: a file without the raw data flag gives \<open>NONE\<close>; otherwise a file name that
  holds \<open>CEL\<close>, compared without regard to case, gives \<open>AFFY_TO_PCL\<close>, and any other name
  gives \<open>AGILENT_TWOCOLOR_TO_PCL\<close>.
\<close>

definition pipeline_selector :: "Sample option \<Rightarrow> OriginalFile \<Rightarrow> ProcessorPipeline" where
  "pipeline_selector sample_object f =
     (if \<not> has_raw f then NONE
      else if contains ''CEL'' (upper (filename f)) then AFFY_TO_PCL
      else AGILENT_TWOCOLOR_TO_PCL)"

section \<open>Retry driver\<close>

definition PAGE_SIZE :: nat where
  "PAGE_SIZE = 2000"

record options =
  opt_source_database :: "string option"

text \<open>
  The paginator is the one of the web framework: the pages are the consecutive slices of
  \<open>per_page\<close> rows, an empty query set has one (empty) page, and a page has a next one when
  its number is below the number of pages.
\<close>

record Page =
  object_list :: "Sample list"
  number :: nat
  num_pages :: nat

definition paginator_num_pages :: "Sample list \<Rightarrow> nat \<Rightarrow> nat" where
  "paginator_num_pages xs per_page = (max 1 (length xs) + per_page - 1) div per_page"

definition paginator_page :: "Sample list \<Rightarrow> nat \<Rightarrow> nat \<Rightarrow> Page" where
  "paginator_page xs per_page n =
     \<lparr>object_list = take per_page (drop ((n - 1) * per_page) xs),
      number = n,
      num_pages = paginator_num_pages xs per_page\<rparr>"

definition has_next :: "Page \<Rightarrow> bool" where
  "has_next page \<longleftrightarrow> number page < num_pages page"

text \<open>\<open>time.sleep\<close> leaves its trace in the journal.\<close>

definition time_sleep :: "nat \<Rightarrow> store \<Rightarrow> store" where
  "time_sleep seconds st = st\<lparr>journal := journal st @ [Sleep seconds]\<rparr>"

text \<open>
  The query set that is paginated: \<open>Sample.objects.filter(source_database="SRA")\<close>. The
  prefetch of the related rows does not change which samples it holds.
\<close>

definition sra_samples :: "store \<Rightarrow> Sample list" where
  "sra_samples st = filter (\<lambda>s. source_database s = ''SRA'') (samples st)"

text \<open>
  The body of the loop for one page. \<open>create_downloader_job\<close> is imported from
  \<open>data_refinery_common.utils\<close>, which is not among the sources: it is a parameter.
\<close>

definition requeue_page ::
  "(OriginalFile list \<Rightarrow> bool \<Rightarrow> store \<Rightarrow> store) \<Rightarrow> Sample list \<Rightarrow> store \<Rightarrow> store" where
  "requeue_page create_downloader_job page_samples st =
     fold (\<lambda>sample st.
        if length (computed_files sample) = 0
        then create_downloader_job (sample_original_files st sample) True st
        else st) page_samples st"

text \<open>
  The loop \<open>while page.has_next()\<close>: the body works on the page and sleeps; nothing in it
  assigns \<open>page\<close>. The loop need not end, so it runs on fuel: \<open>None\<close> is a run that has not
  returned when the fuel is used up.
\<close>

fun requeue_loop ::
  "nat \<Rightarrow> (OriginalFile list \<Rightarrow> bool \<Rightarrow> store \<Rightarrow> store) \<Rightarrow> Page \<Rightarrow> store \<Rightarrow> store option" where
  "requeue_loop 0 create_downloader_job page st = None"
| "requeue_loop (Suc fuel) create_downloader_job page st =
     (if has_next page
      then requeue_loop fuel create_downloader_job page
             (time_sleep (60 * 5) (requeue_page create_downloader_job (object_list page) st))
      else Some st)"

text \<open>
  \<open>Command.handle\<close>. Without the argument the command logs an error and exits with status 1.
  Otherwise the argument is bound to a variable that is not read again. Line 50 of the
  source breaks off after \<open>objects.\<close> and the query set of line 51 is not used; the model
  passes over both. \<open>paginator.page()\<close> names no page: it is taken to be the first.
\<close>

definition handle ::
  "nat \<Rightarrow> (OriginalFile list \<Rightarrow> bool \<Rightarrow> store \<Rightarrow> store) \<Rightarrow> options \<Rightarrow> store
     \<Rightarrow> (exn + store) option" where
  "handle fuel create_downloader_job options st =
     (case opt_source_database options of
        None \<Rightarrow> Some (Inl (SystemExit 1))
      | Some source_database_value \<Rightarrow>
          let page = paginator_page (sra_samples st) PAGE_SIZE 1
          in map_option Inr (requeue_loop fuel create_downloader_job page st))"

section \<open>Vocabulary of the properties\<close>

text \<open>
  The pipeline that the job factory selects for a sequence of files (the selector applied to
  the first file and its sample), the job it then builds, the association of a job and a
  file, and what clearing one file leaves in the journal.
\<close>

definition selected_pipeline :: "env \<Rightarrow> store \<Rightarrow> OriginalFile list \<Rightarrow> ProcessorPipeline" where
  "selected_pipeline env st fs =
     determine_processor_pipeline env (qs_first (file_samples st (fs ! 0))) (fs ! 0)"

definition new_processor_job :: "env \<Rightarrow> store \<Rightarrow> OriginalFile list \<Rightarrow> ProcessorJob" where
  "new_processor_job env st fs =
     \<lparr>pj_id = Suc (processor_job_id_seq st),
      pipeline_applied = pipeline_value (selected_pipeline env st fs),
      ram_amount = determine_ram_amount env (qs_first (file_samples st (fs ! 0)))
                     (pipeline_value (selected_pipeline env st fs))\<rparr>"

definition association_of :: "ProcessorJob \<Rightarrow> OriginalFile \<Rightarrow> ProcessorJobOriginalFileAssociation" where
  "association_of job f = \<lparr>original_file = of_id f, processor_job = pj_id job\<rparr>"

definition clearing_effects :: "OriginalFile \<Rightarrow> effect list" where
  "clearing_effects f = [DeleteLocalFile (of_id f), SaveOriginalFile (f\<lparr>is_downloaded := False\<rparr>)]"


text \<open>
  The version list as the specification words it, for comparison: the versions of the
  results ordered by descending creation time of the result, each version kept at its first
  place.
\<close>

definition versions_by_result_creation :: "ComputationalResult list \<Rightarrow> string list" where
  "versions_by_result_creation quant_results =
     rev (remdups (rev (map (\<lambda>r. salmon_version (organism_index r))
       (sort_key (\<lambda>r. - cr_created_at r) quant_results))))"


text \<open>
  A string holds \<open>CEL\<close> in some mix of cases: three consecutive characters \<open>c\<close> or \<open>C\<close>,
  \<open>e\<close> or \<open>E\<close>, \<open>l\<close> or \<open>L\<close>.
\<close>

definition cel_at :: "string \<Rightarrow> bool" where
  "cel_at s \<longleftrightarrow>
     (\<exists>pre a b c post. s = pre @ [a, b, c] @ post \<and>
        (a = CHR ''c'' \<or> a = CHR ''C'') \<and> (b = CHR ''e'' \<or> b = CHR ''E'') \<and>
        (c = CHR ''l'' \<or> c = CHR ''L''))"


text \<open>A file row with the downloaded flag cleared.\<close>

definition clr :: "OriginalFile \<Rightarrow> OriginalFile" where
  "clr f = f\<lparr>is_downloaded := False\<rparr>"

text \<open>The keys of the files that the associations of the store give to a job, in order.\<close>

definition job_original_files :: "store \<Rightarrow> ProcessorJob \<Rightarrow> nat list" where
  "job_original_files st j =
     map original_file
       (filter (\<lambda>a. processor_job a = pj_id j) (processor_job_original_file_associations st))"

text \<open>
  Integrity of the store: the primary keys of the file rows are distinct, and every
  association refers to a job key that the sequence has issued.
\<close>

definition wf_store :: "store \<Rightarrow> bool" where
  "wf_store st \<longleftrightarrow>
     distinct (map of_id (original_files st)) \<and>
     list_all (\<lambda>a. processor_job a \<le> processor_job_id_seq st)
       (processor_job_original_file_associations st)"

text \<open>
  Every association refers to a job key that the sequence has issued (the second part of
  the integrity of the store), so that the key of a new job occurs in no association.
\<close>

definition issued_job_references :: "store \<Rightarrow> bool" where
  "issued_job_references st \<longleftrightarrow>
     list_all (\<lambda>a. processor_job a \<le> processor_job_id_seq st)
       (processor_job_original_file_associations st)"

text \<open>
  The selector does not look at the downloaded flag of the file (the rule of the
  specification reads the raw data flag and the file name).
\<close>

definition ignores_downloaded :: "env \<Rightarrow> bool" where
  "ignores_downloaded env \<longleftrightarrow>
     (\<forall>s f b. determine_processor_pipeline env s (f\<lparr>is_downloaded := b\<rparr>) =
              determine_processor_pipeline env s f)"

text \<open>
  Two stores hold the same samples, results and relations, and the same file rows up to
  the downloaded flag.
\<close>

definition same_rows :: "store \<Rightarrow> store \<Rightarrow> bool" where
  "same_rows st st' \<longleftrightarrow>
     samples st' = samples st \<and>
     original_file_sample_associations st' = original_file_sample_associations st \<and>
     experiment_sample_associations st' = experiment_sample_associations st \<and>
     computational_results st' = computational_results st \<and>
     map clr (original_files st') = map clr (original_files st)"

text \<open>
  A sample is stale when its most recent quantification result carries a version other
  than the latest one; it receives a job when it has a file and a pipeline is selected.
\<close>

definition stale :: "env \<Rightarrow> store \<Rightarrow> string \<Rightarrow> Sample \<Rightarrow> bool" where
  "stale env st latest s \<longleftrightarrow>
     (\<exists>v. annotated_salmon_version env st s = Some v \<and> v \<noteq> latest)"

definition receives_job :: "env \<Rightarrow> store \<Rightarrow> Sample \<Rightarrow> bool" where
  "receives_job env st s \<longleftrightarrow>
     sample_original_files st s \<noteq> [] \<and>
     selected_pipeline env st (sample_original_files st s) \<noteq> NONE"


text \<open>The latest version of an experiment: the first entry of its version list.\<close>

definition latest_salmon_version :: "env \<Rightarrow> store \<Rightarrow> Experiment \<Rightarrow> string" where
  "latest_salmon_version env st e =
     salmon_versions_of (get_quant_results_for_experiment env st e) ! 0"


section \<open>Example stores\<close>

text \<open>
  A concrete environment and the scenarios of the specification: an experiment with two
  samples; the first has one file, the second two, of which the last is not raw data. In scenario A the results carry two versions, in scenario B one.
  The example query for the quantification results of an experiment returns the results of
  the quantification processor that cover one of its samples.
\<close>

definition quant_results_of :: "string \<Rightarrow> store \<Rightarrow> Experiment \<Rightarrow> ComputationalResult list" where
  "quant_results_of name st e =
     filter (\<lambda>r. processor_name r = name \<and>
                 list_ex (\<lambda>s. s_id s \<in> set (cr_samples r)) (experiment_samples st e))
       (computational_results st)"

definition example_env :: env where
  "example_env =
     \<lparr>determine_processor_pipeline = (\<lambda>s f. if has_raw f then SALMON else NONE),
      determine_ram_amount = (\<lambda>s p. 2048),
      send_job = (\<lambda>p j. None),
      get_quant_results_for_experiment = quant_results_of ''Salmon Quant'',
      SALMON_QUANT_name = ''Salmon Quant''\<rparr>"

definition failing_queue_env :: env where
  "failing_queue_env = example_env\<lparr>send_job := (\<lambda>p j. Some QueueError)\<rparr>"

definition experiment_E :: Experiment where
  "experiment_E = \<lparr>e_id = 1, accession_code = ''E''\<rparr>"

definition sample_S1 :: Sample where
  "sample_S1 = \<lparr>s_id = 1, source_database = ''SRA'', computed_files = []\<rparr>"

definition sample_S2 :: Sample where
  "sample_S2 = \<lparr>s_id = 2, source_database = ''SRA'', computed_files = []\<rparr>"

definition file_F1 :: OriginalFile where
  "file_F1 = \<lparr>of_id = 1, filename = ''s1.fastq'', has_raw = True, is_downloaded = True\<rparr>"

definition file_F2 :: OriginalFile where
  "file_F2 = \<lparr>of_id = 2, filename = ''s2.fastq'', has_raw = True, is_downloaded = True\<rparr>"

definition file_F3 :: OriginalFile where
  "file_F3 = \<lparr>of_id = 3, filename = ''s2.txt'', has_raw = False, is_downloaded = True\<rparr>"

definition result_of :: "nat \<Rightarrow> string \<Rightarrow> int \<Rightarrow> nat \<Rightarrow> ComputationalResult" where
  "result_of k v t s =
     \<lparr>cr_id = k, processor_name = ''Salmon Quant'',
      organism_index = \<lparr>salmon_version = v, oi_created_at = t\<rparr>,
      cr_created_at = t, cr_samples = [s]\<rparr>"

definition store_with :: "ComputationalResult list \<Rightarrow> store" where
  "store_with rs =
     \<lparr>samples = [sample_S1, sample_S2],
      original_files = [file_F1, file_F2, file_F3],
      original_file_sample_associations = [(1, 1), (2, 2), (3, 2)],
      experiment_sample_associations = [(1, 1), (1, 2)],
      computational_results = rs,
      processor_jobs = [],
      processor_job_id_seq = 0,
      processor_job_original_file_associations = [],
      journal = []\<rparr>"

definition scenario_A :: store where
  "scenario_A = store_with [result_of 1 ''0.9.0'' 1 1, result_of 2 ''1.0.0'' 2 2]"

definition scenario_B :: store where
  "scenario_B = store_with [result_of 1 ''1.0.0'' 1 1, result_of 2 ''1.0.0'' 1 2]"


text \<open>
  A result set for the version list: the newer result used the older index.
\<close>

definition newer_result_older_index :: "ComputationalResult list" where
  "newer_result_older_index =
     [\<lparr>cr_id = 1, processor_name = ''Salmon Quant'',
       organism_index = \<lparr>salmon_version = ''0.9.0'', oi_created_at = 1\<rparr>,
       cr_created_at = 20, cr_samples = [1]\<rparr>,
      \<lparr>cr_id = 2, processor_name = ''Salmon Quant'',
       organism_index = \<lparr>salmon_version = ''1.0.0'', oi_created_at = 2\<rparr>,
       cr_created_at = 10, cr_samples = [2]\<rparr>]"



text \<open>A file that is not raw data, and a raw \<open>CEL\<close> file named in lower case.\<close>

definition txt_file :: OriginalFile where
  "txt_file = \<lparr>of_id = 1, filename = ''GSE22427_non-normalized.txt'', has_raw = False,
                is_downloaded = True\<rparr>"

definition cel_file :: OriginalFile where
  "cel_file = \<lparr>of_id = 2, filename = ''GSM1.cel.gz'', has_raw = True, is_downloaded = True\<rparr>"


text \<open>
  Stores for the retry driver: three samples of two source databases, and 2001 samples of
  the database \<open>SRA\<close>, which fill two pages. The example downloader job factory records its
  call in the journal.
\<close>

definition recording_downloader_job :: "OriginalFile list \<Rightarrow> bool \<Rightarrow> store \<Rightarrow> store" where
  "recording_downloader_job fs force st =
     st\<lparr>journal := journal st @ [CreateDownloaderJob (map of_id fs) force]\<rparr>"

definition store_of_samples :: "Sample list \<Rightarrow> store" where
  "store_of_samples xs =
     \<lparr>samples = xs,
      original_files = [],
      original_file_sample_associations = [],
      experiment_sample_associations = [],
      computational_results = [],
      processor_jobs = [],
      processor_job_id_seq = 0,
      processor_job_original_file_associations = [],
      journal = []\<rparr>"

definition sra_unprocessed :: Sample where
  "sra_unprocessed = \<lparr>s_id = 1, source_database = ''SRA'', computed_files = []\<rparr>"

definition geo_unprocessed :: Sample where
  "geo_unprocessed = \<lparr>s_id = 2, source_database = ''GEO'', computed_files = []\<rparr>"

definition sra_processed :: Sample where
  "sra_processed = \<lparr>s_id = 3, source_database = ''SRA'', computed_files = [7]\<rparr>"

definition mixed_store :: store where
  "mixed_store = store_of_samples [sra_unprocessed, geo_unprocessed, sra_processed]"

definition two_page_store :: store where
  "two_page_store =
     store_of_samples
       (map (\<lambda>i. \<lparr>s_id = i, source_database = ''SRA'', computed_files = []\<rparr>) [0..<2001])"


text \<open>
  Stores for the staleness detector. In scenario C the first sample has two results, the
  more recent one on the older index, and the second sample has no result. In the last
  store the first and third sample are stale, but the first has no file and the file of the
  third is not raw data.
\<close>

definition sample_S3 :: Sample where
  "sample_S3 = \<lparr>s_id = 3, source_database = ''SRA'', computed_files = []\<rparr>"

definition result_at :: "nat \<Rightarrow> string \<Rightarrow> int \<Rightarrow> int \<Rightarrow> nat \<Rightarrow> ComputationalResult" where
  "result_at k v index_time result_time s =
     \<lparr>cr_id = k, processor_name = ''Salmon Quant'',
      organism_index = \<lparr>salmon_version = v, oi_created_at = index_time\<rparr>,
      cr_created_at = result_time, cr_samples = [s]\<rparr>"

definition scenario_C :: store where
  "scenario_C = store_with [result_at 1 ''0.9.0'' 1 5 1, result_at 2 ''1.0.0'' 2 0 1]"

definition no_job_store :: store where
  "no_job_store =
     \<lparr>samples = [sample_S1, sample_S2, sample_S3],
      original_files = [file_F2, file_F3],
      original_file_sample_associations = [(2, 2), (3, 3)],
      experiment_sample_associations = [(1, 1), (1, 2), (1, 3)],
      computational_results =
        [result_of 1 ''0.9.0'' 1 1, result_of 2 ''1.0.0'' 2 2, result_of 3 ''0.9.0'' 1 3],
      processor_jobs = [],
      processor_job_id_seq = 0,
      processor_job_original_file_associations = [],
      journal = []\<rparr>"

definition job_J1 :: ProcessorJob where
  "job_J1 = \<lparr>pj_id = 1, pipeline_applied = ''SALMON'', ram_amount = 2048\<rparr>"


text \<open>A file that is not raw data and belongs to no sample.\<close>

definition orphan_file :: OriginalFile where
  "orphan_file = \<lparr>of_id = 9, filename = ''orphan.txt'', has_raw = False, is_downloaded = True\<rparr>"



section \<open>Evaluation of the examples\<close>

lemma experiment_samples_store_with:
  "experiment_samples (store_with rs) experiment_E = [sample_S1, sample_S2]"
  by (simp add: experiment_samples_def store_with_def experiment_E_def sample_S1_def sample_S2_def)

lemma versions_B:
  "salmon_versions_of (get_quant_results_for_experiment example_env scenario_B experiment_E)
     = [''1.0.0'']"
  by (simp add: example_env_def quant_results_of_def scenario_B_def experiment_samples_store_with
      salmon_versions_of_def version_row_def)
    (simp add: store_with_def result_of_def sample_S1_def sample_S2_def version_row_def)

lemma versions_A:
  "salmon_versions_of (get_quant_results_for_experiment example_env scenario_A experiment_E)
     = [''1.0.0'', ''0.9.0'']"
  by (simp add: example_env_def quant_results_of_def scenario_A_def experiment_samples_store_with
      salmon_versions_of_def version_row_def)
    (simp add: store_with_def result_of_def sample_S1_def sample_S2_def version_row_def)

section \<open>The job factory\<close>

lemma wf_store_issued: "wf_store st \<Longrightarrow> issued_job_references st"
  by (simp add: wf_store_def issued_job_references_def)

lemma save_associations_free:
  assumes "distinct (map of_id fs)"
    and "\<forall>f \<in> set fs. association_of job f \<notin> set (processor_job_original_file_associations st)"
  shows "save_associations job fs st =
     Inr (st\<lparr>processor_job_original_file_associations :=
            processor_job_original_file_associations st @ map (association_of job) fs,
          journal := journal st @ map (\<lambda>f. SaveAssociation (association_of job f)) fs\<rparr>)"
  using assms
proof (induction fs arbitrary: st)
  case Nil
  show ?case by simp
next
  case (Cons f fs)
  let ?st1 = "st\<lparr>processor_job_original_file_associations :=
                  processor_job_original_file_associations st @ [association_of job f],
                journal := journal st @ [SaveAssociation (association_of job f)]\<rparr>"
  have one: "save_association job f st = Inr ?st1"
    using Cons.prems(2) by (simp add: save_association_def association_of_def Let_def)
  have d: "distinct (map of_id fs)" using Cons.prems(1) by simp
  have other: "association_of job g \<noteq> association_of job f" if "g \<in> set fs" for g
  proof -
    have "of_id g \<in> of_id ` set fs" using that by (rule imageI)
    moreover have "of_id f \<notin> of_id ` set fs" using Cons.prems(1) by simp
    ultimately have "of_id g \<noteq> of_id f" by metis
    then show ?thesis by (simp add: association_of_def)
  qed
  have free: "\<forall>g \<in> set fs.
      association_of job g \<notin> set (processor_job_original_file_associations ?st1)"
    using Cons.prems(2) other by simp
  show ?case
    using one Cons.IH[OF d free] by simp
qed

lemma new_job_associations_free:
  assumes "issued_job_references st"
  shows "association_of (new_processor_job env st fs) f
           \<notin> set (processor_job_original_file_associations (save_processor_job job st))"
proof
  assume "association_of (new_processor_job env st fs) f
           \<in> set (processor_job_original_file_associations (save_processor_job job st))"
  then have "association_of (new_processor_job env st fs) f
           \<in> set (processor_job_original_file_associations st)"
    by (simp add: save_processor_job_def)
  then have "processor_job (association_of (new_processor_job env st fs) f)
           \<le> processor_job_id_seq st"
    using assms by (simp add: issued_job_references_def list_all_iff)
  then show False by (simp add: association_of_def new_processor_job_def)
qed

lemma create_with_pipeline:
  assumes "fs \<noteq> []" and "selected_pipeline env st fs \<noteq> NONE"
    and "distinct (map of_id fs)" and "issued_job_references st"
  shows "create_processor_job_for_original_files env fs st =
     Inr (st\<lparr>processor_jobs := processor_jobs st @ [new_processor_job env st fs],
            processor_job_id_seq := Suc (processor_job_id_seq st),
            processor_job_original_file_associations :=
              processor_job_original_file_associations st @
                map (association_of (new_processor_job env st fs)) fs,
            journal := journal st @ [SaveProcessorJob (new_processor_job env st fs)] @
              map (\<lambda>f. SaveAssociation (association_of (new_processor_job env st fs) f)) fs @
              [SendJob (selected_pipeline env st fs) (new_processor_job env st fs)
                 (send_job env (selected_pipeline env st fs) (new_processor_job env st fs))]\<rparr>)"
proof -
  let ?job = "new_processor_job env st fs"
  have free: "\<forall>f \<in> set fs. association_of ?job f
      \<notin> set (processor_job_original_file_associations (save_processor_job ?job st))"
    using new_job_associations_free[OF assms(4)] by blast
  have s: "save_associations ?job fs (save_processor_job ?job st) =
     Inr ((save_processor_job ?job st)\<lparr>processor_job_original_file_associations :=
            processor_job_original_file_associations (save_processor_job ?job st) @
              map (association_of ?job) fs,
          journal := journal (save_processor_job ?job st) @
              map (\<lambda>f. SaveAssociation (association_of ?job f)) fs\<rparr>)"
    by (rule save_associations_free[OF assms(3) free])
  have p: "determine_processor_pipeline env (qs_first (file_samples st (fs ! 0))) (fs ! 0) =
      selected_pipeline env st fs"
    by (simp add: selected_pipeline_def)
  have j: "\<lparr>pj_id = Suc (processor_job_id_seq st),
            pipeline_applied = pipeline_value (selected_pipeline env st fs),
            ram_amount = determine_ram_amount env (qs_first (file_samples st (fs ! 0)))
              (pipeline_value (selected_pipeline env st fs))\<rparr> = ?job"
    by (simp add: new_processor_job_def)
  show ?thesis
    using assms(1,2)
    unfolding create_processor_job_for_original_files_def Let_def p j
    by (simp add: s) (simp add: save_processor_job_def new_processor_job_def)
qed

lemma fold_clear_downloaded_journal:
  "journal (fold clear_downloaded fs st) = journal st @ concat (map clearing_effects fs) \<and>
   processor_jobs (fold clear_downloaded fs st) = processor_jobs st \<and>
   processor_job_id_seq (fold clear_downloaded fs st) = processor_job_id_seq st \<and>
   processor_job_original_file_associations (fold clear_downloaded fs st) =
     processor_job_original_file_associations st \<and>
   samples (fold clear_downloaded fs st) = samples st \<and>
   original_file_sample_associations (fold clear_downloaded fs st) =
     original_file_sample_associations st \<and>
   experiment_sample_associations (fold clear_downloaded fs st) =
     experiment_sample_associations st \<and>
   computational_results (fold clear_downloaded fs st) = computational_results st"
proof (induction fs arbitrary: st)
  case Nil
  show ?case by simp
next
  case (Cons f fs)
  show ?case
    by (simp add: Cons.IH) (simp add: clear_downloaded_def clearing_effects_def Let_def)
qed

lemma set_save_original_file:
  "set (save_original_file f rows) = {g \<in> set rows. of_id g \<noteq> of_id f} \<union> {f}"
  by (auto simp: save_original_file_def image_iff)

lemma fold_clear_downloaded_rows:
  "(\<forall>g. of_id g \<notin> of_id ` set fs \<longrightarrow>
      (g \<in> set (original_files (fold clear_downloaded fs st)) \<longleftrightarrow>
       g \<in> set (original_files st))) \<and>
   (\<forall>g \<in> set (original_files (fold clear_downloaded fs st)).
      of_id g \<in> of_id ` set fs \<longrightarrow> \<not> is_downloaded g) \<and>
   of_id ` set fs \<subseteq> of_id ` set (original_files (fold clear_downloaded fs st))"
proof (induction fs arbitrary: st)
  case Nil
  show ?case by simp
next
  case (Cons f fs)
  let ?st1 = "clear_downloaded f st"
  let ?st' = "fold clear_downloaded fs ?st1"
  have rows1: "g \<in> set (original_files ?st1) \<longleftrightarrow>
      (g \<in> set (original_files st) \<and> of_id g \<noteq> of_id f) \<or> g = f\<lparr>is_downloaded := False\<rparr>" for g
    by (auto simp: clear_downloaded_def Let_def set_save_original_file)
  have ih1: "of_id g \<notin> of_id ` set fs \<Longrightarrow>
      g \<in> set (original_files ?st') \<longleftrightarrow> g \<in> set (original_files ?st1)" for g
    using Cons.IH[of ?st1] by blast
  have ih2: "g \<in> set (original_files ?st') \<Longrightarrow> of_id g \<in> of_id ` set fs
      \<Longrightarrow> \<not> is_downloaded g" for g
    using Cons.IH[of ?st1] by blast
  have ih3: "of_id ` set fs \<subseteq> of_id ` set (original_files ?st')"
    using Cons.IH[of ?st1] by blast
  have a: "g \<in> set (original_files ?st') \<longleftrightarrow> g \<in> set (original_files st)"
    if "of_id g \<notin> of_id ` set (f # fs)" for g
  proof -
    from that have n: "of_id g \<notin> of_id ` set fs" and m: "of_id g \<noteq> of_id f" by auto
    have "g \<noteq> f\<lparr>is_downloaded := False\<rparr>" using m by auto
    then show ?thesis using ih1[OF n] rows1[of g] m by simp
  qed
  have b: "\<not> is_downloaded g"
    if "g \<in> set (original_files ?st')" "of_id g \<in> of_id ` set (f # fs)" for g
  proof (cases "of_id g \<in> of_id ` set fs")
    case True
    then show ?thesis using ih2 that by blast
  next
    case False
    then have "g \<in> set (original_files ?st1)" using ih1 that by blast
    moreover have "of_id g = of_id f" using False that by auto
    ultimately have "g = f\<lparr>is_downloaded := False\<rparr>" using rows1[of g] by simp
    then show ?thesis by simp
  qed
  have c: "of_id f \<in> of_id ` set (original_files ?st')"
  proof (cases "of_id f \<in> of_id ` set fs")
    case True
    then show ?thesis using ih3 by blast
  next
    case False
    have "f\<lparr>is_downloaded := False\<rparr> \<in> set (original_files ?st1)" using rows1 by simp
    moreover have "of_id (f\<lparr>is_downloaded := False\<rparr>) \<notin> of_id ` set fs" using False by simp
    ultimately have "f\<lparr>is_downloaded := False\<rparr> \<in> set (original_files ?st')"
      using ih1 by blast
    then have "of_id (f\<lparr>is_downloaded := False\<rparr>) \<in> of_id ` set (original_files ?st')"
      by (rule imageI)
    then show ?thesis by simp
  qed
  have d: "of_id ` set (f # fs) \<subseteq> of_id ` set (original_files ?st')"
    using c ih3 by auto
  have e: "fold clear_downloaded (f # fs) st = ?st'" by simp
  show ?case unfolding e using a b d by blast
qed

section \<open>The loop of the staleness detector\<close>

lemma clr_simps [simp]: "of_id (clr f) = of_id f" "clr (clr f) = clr f"
  by (simp_all add: clr_def)

lemma same_rows_refl: "same_rows st st"
  by (simp add: same_rows_def)

lemma same_rows_trans: "same_rows a b \<Longrightarrow> same_rows b c \<Longrightarrow> same_rows a c"
  by (simp add: same_rows_def)

lemma same_rows_ids:
  assumes "same_rows st st'"
  shows "map of_id (original_files st') = map of_id (original_files st)"
proof -
  have "map of_id (map clr (original_files st')) = map of_id (map clr (original_files st))"
    using assms by (simp add: same_rows_def)
  then show ?thesis by (simp add: comp_def)
qed

lemma save_original_file_clr:
  assumes d: "distinct (map of_id rows)" and m: "clr f \<in> clr ` set rows"
  shows "map clr (save_original_file (clr f) rows) = map clr rows"
proof -
  from m obtain g0 where g0: "g0 \<in> set rows" "clr g0 = clr f" by auto
  then have idg0: "of_id g0 = of_id f" by (metis clr_simps(1))
  have "of_id (clr f) \<in> set (map of_id rows)"
    using g0 idg0 by (auto intro!: image_eqI[where x=g0])
  moreover have "clr (if of_id g = of_id (clr f) then clr f else g) = clr g"
    if "g \<in> set rows" for g
  proof (cases "of_id g = of_id f")
    case True
    then have "g = g0" using d g0 that idg0 by (metis distinct_map inj_on_def)
    then show ?thesis using g0 True by simp
  next
    case False
    then show ?thesis by simp
  qed
  ultimately show ?thesis by (simp add: save_original_file_def)
qed

lemma fold_clear_downloaded_same_rows:
  assumes "distinct (map of_id (original_files st))"
    and "\<forall>f \<in> set fs. clr f \<in> clr ` set (original_files st)"
  shows "same_rows st (fold clear_downloaded fs st)"
  using assms
proof (induction fs arbitrary: st)
  case Nil
  show ?case by (simp add: same_rows_refl)
next
  case (Cons f fs)
  let ?st1 = "clear_downloaded f st"
  have m: "map clr (original_files ?st1) = map clr (original_files st)"
    using Cons.prems save_original_file_clr[of "original_files st" f]
    by (simp add: clear_downloaded_def Let_def clr_def)
  have r1: "same_rows st ?st1"
    using m by (simp add: same_rows_def) (simp add: clear_downloaded_def Let_def)
  have d1: "distinct (map of_id (original_files ?st1))"
    using same_rows_ids[OF r1] Cons.prems(1) by simp
  have s1: "clr ` set (original_files ?st1) = clr ` set (original_files st)"
    using m by (metis set_map)
  have "same_rows ?st1 (fold clear_downloaded fs ?st1)"
    using Cons.IH[OF d1] Cons.prems(2) s1 by simp
  then have "same_rows st (fold clear_downloaded fs ?st1)" by (rule same_rows_trans[OF r1])
  then show ?case by simp
qed

lemma file_samples_cong:
  assumes "same_rows st st'" and "of_id f' = of_id f"
  shows "file_samples st' f' = file_samples st f"
  using assms by (simp add: file_samples_def same_rows_def)

lemma sample_original_files_same_rows:
  assumes "same_rows st st'"
  shows "map clr (sample_original_files st' s) = map clr (sample_original_files st s)"
proof -
  let ?P = "\<lambda>f. (of_id f, s_id s) \<in> set (original_file_sample_associations st)"
  have c: "?P \<circ> clr = ?P" by (simp add: comp_def)
  have "map clr (filter ?P xs) = filter ?P (map clr xs)" for xs
    by (simp add: filter_map c)
  then show ?thesis
    using assms by (simp add: sample_original_files_def same_rows_def)
qed

lemma ignores_downloaded_clr:
  "ignores_downloaded env \<Longrightarrow>
     determine_processor_pipeline env x (clr f) = determine_processor_pipeline env x f"
  by (simp add: ignores_downloaded_def clr_def)

lemma receives_job_same_rows:
  assumes ig: "ignores_downloaded env" and sr: "same_rows st st'"
  shows "receives_job env st' s = receives_job env st s"
proof -
  let ?fs = "sample_original_files st s" and ?fs' = "sample_original_files st' s"
  have m: "map clr ?fs' = map clr ?fs" by (rule sample_original_files_same_rows[OF sr])
  then have e: "?fs' = [] \<longleftrightarrow> ?fs = []" by (metis map_is_Nil_conv)
  have "selected_pipeline env st' ?fs' = selected_pipeline env st ?fs" if ne: "?fs \<noteq> []"
  proof -
    have ne': "?fs' \<noteq> []" using ne e by simp
    have "map clr ?fs' ! 0 = map clr ?fs ! 0" using m by simp
    then have h: "clr (?fs' ! 0) = clr (?fs ! 0)" using ne ne' by simp
    then have i: "of_id (?fs' ! 0) = of_id (?fs ! 0)" by (metis clr_simps(1))
    have "determine_processor_pipeline env x (?fs' ! 0) =
          determine_processor_pipeline env x (?fs ! 0)" for x
      using ignores_downloaded_clr[OF ig, of x "?fs' ! 0"]
        ignores_downloaded_clr[OF ig, of x "?fs ! 0"] h by simp
    then show ?thesis
      by (simp add: selected_pipeline_def file_samples_cong[OF sr i])
  qed
  then show ?thesis using e by (auto simp: receives_job_def)
qed

lemma qs_first_Some:
  assumes "s \<in> set xs"
  shows "\<exists>x. qs_first xs = Some x"
proof -
  have "set (sort_key s_id xs) \<noteq> {}" using assms by auto
  then have "sort_key s_id xs \<noteq> []" by (metis empty_set)
  then show ?thesis by (cases "sort_key s_id xs") (simp_all add: qs_first_def)
qed

lemma create_for_sample:
  assumes ig: "ignores_downloaded env" and wf: "wf_store st" and mem: "s \<in> set (samples st)"
  shows "\<exists>st1. create_processor_job_for_original_files env (sample_original_files st s) st
            = Inr st1 \<and>
     same_rows st st1 \<and>
     (if receives_job env st s
      then processor_jobs st1 =
             processor_jobs st @ [new_processor_job env st (sample_original_files st s)] \<and>
           processor_job_id_seq st1 = Suc (processor_job_id_seq st) \<and>
           processor_job_original_file_associations st1 =
             processor_job_original_file_associations st @
               map (association_of (new_processor_job env st (sample_original_files st s)))
                 (sample_original_files st s)
      else processor_jobs st1 = processor_jobs st \<and>
           processor_job_id_seq st1 = processor_job_id_seq st \<and>
           processor_job_original_file_associations st1 =
             processor_job_original_file_associations st)"
proof -
  let ?fs = "sample_original_files st s"
  show ?thesis
  proof (cases "?fs = []")
    case True
    then show ?thesis
      by (simp add: create_processor_job_for_original_files_def receives_job_def same_rows_refl)
  next
    case ne: False
    show ?thesis
    proof (cases "selected_pipeline env st ?fs = NONE")
      case True
      have "?fs ! 0 \<in> set ?fs" using ne by simp
      then have "(of_id (?fs ! 0), s_id s) \<in> set (original_file_sample_associations st)"
        by (simp add: sample_original_files_def)
      then have "s \<in> set (file_samples st (?fs ! 0))"
        using mem by (simp add: file_samples_def)
      then obtain x where x: "qs_first (file_samples st (?fs ! 0)) = Some x"
        using qs_first_Some by blast
      have r: "create_processor_job_for_original_files env ?fs st =
          Inr (fold clear_downloaded ?fs st)"
        using ne True x
        by (simp add: create_processor_job_for_original_files_def selected_pipeline_def Let_def)
      have sub: "\<forall>f \<in> set ?fs. clr f \<in> clr ` set (original_files st)"
        by (simp add: sample_original_files_def)
      have sr: "same_rows st (fold clear_downloaded ?fs st)"
        using fold_clear_downloaded_same_rows[OF _ sub] wf by (simp add: wf_store_def)
      show ?thesis
        using r sr True fold_clear_downloaded_journal[of ?fs st]
        by (simp add: receives_job_def)
    next
      case False
      have sr: "same_rows st
        (st\<lparr>processor_jobs := a, processor_job_id_seq := b,
            processor_job_original_file_associations := c, journal := d\<rparr>)" for a b c d
        by (simp add: same_rows_def)
      have di: "distinct (map of_id ?fs)"
        using wf by (simp add: wf_store_def sample_original_files_def distinct_map_filter)
      have iss: "issued_job_references st" by (rule wf_store_issued[OF wf])
      show ?thesis
        using ne False sr
        by (simp add: create_with_pipeline[OF ne False di iss] receives_job_def)
    qed
  qed
qed


lemma wf_store_step:
  assumes "wf_store st" and "same_rows st st1"
    and "processor_job_id_seq st \<le> processor_job_id_seq st1"
    and "processor_job_original_file_associations st1 =
           processor_job_original_file_associations st @ extra"
    and "\<forall>a \<in> set extra. processor_job a \<le> processor_job_id_seq st1"
  shows "wf_store st1"
  using assms same_rows_ids[OF assms(2)]
  by (auto simp: wf_store_def list_all_iff)

lemma old_associations_below:
  assumes "wf_store st" and "processor_job_id_seq st < k"
  shows "filter (\<lambda>a. processor_job a = k) (processor_job_original_file_associations st) = []"
  using assms by (auto simp: wf_store_def list_all_iff filter_empty_conv)

lemma job_files_of_new_job:
  "map original_file (filter (\<lambda>a. processor_job a = pj_id j) (map (association_of j) fs)) =
     map of_id fs"
  by (induction fs) (simp_all add: association_of_def)

lemma other_job_files_of_new_job:
  "k \<noteq> pj_id j \<Longrightarrow> filter (\<lambda>a. processor_job a = k) (map (association_of j) fs) = []"
  by (induction fs) (simp_all add: association_of_def)

lemma rerun_samples_jobs:
  assumes ig: "ignores_downloaded env"
  shows "wf_store st \<Longrightarrow> set ss \<subseteq> set (samples st) \<Longrightarrow>
    \<exists>st' new. rerun_samples env ss st = Inr st' \<and> wf_store st' \<and> same_rows st st' \<and>
       processor_job_id_seq st \<le> processor_job_id_seq st' \<and>
       processor_jobs st' = processor_jobs st @ new \<and>
       map pj_id new = [Suc (processor_job_id_seq st) ..< Suc (processor_job_id_seq st')] \<and>
       map (job_original_files st') new =
         map (\<lambda>s. map of_id (sample_original_files st s)) (filter (receives_job env st) ss) \<and>
       (\<forall>k \<le> processor_job_id_seq st.
          filter (\<lambda>a. processor_job a = k) (processor_job_original_file_associations st') =
          filter (\<lambda>a. processor_job a = k) (processor_job_original_file_associations st))"
proof (induction ss arbitrary: st)
  case Nil
  show ?case by (simp add: Nil.prems same_rows_refl)
next
  case (Cons s ss)
  let ?fs = "sample_original_files st s"
  let ?j = "new_processor_job env st ?fs"
  have mem: "s \<in> set (samples st)" using Cons.prems(2) by simp
  obtain st1 where c: "create_processor_job_for_original_files env ?fs st = Inr st1"
    and sr1: "same_rows st st1"
    and yes: "receives_job env st s \<Longrightarrow>
           processor_jobs st1 = processor_jobs st @ [?j] \<and>
           processor_job_id_seq st1 = Suc (processor_job_id_seq st) \<and>
           processor_job_original_file_associations st1 =
             processor_job_original_file_associations st @ map (association_of ?j) ?fs"
    and no: "\<not> receives_job env st s \<Longrightarrow>
           processor_jobs st1 = processor_jobs st \<and>
           processor_job_id_seq st1 = processor_job_id_seq st \<and>
           processor_job_original_file_associations st1 =
             processor_job_original_file_associations st"
    using create_for_sample[OF ig Cons.prems(1) mem] by (metis (full_types))
  have idj: "pj_id ?j = Suc (processor_job_id_seq st)" by (simp add: new_processor_job_def)
  have wf1: "wf_store st1"
  proof (cases "receives_job env st s")
    case True
    show ?thesis
    proof (rule wf_store_step[OF Cons.prems(1) sr1])
      show "processor_job_id_seq st \<le> processor_job_id_seq st1" using yes[OF True] by simp
      show "processor_job_original_file_associations st1 =
           processor_job_original_file_associations st @ map (association_of ?j) ?fs"
        using yes[OF True] by simp
      show "\<forall>a \<in> set (map (association_of ?j) ?fs). processor_job a \<le> processor_job_id_seq st1"
        using yes[OF True] idj by (auto simp: association_of_def)
    qed
  next
    case False
    show ?thesis
    proof (rule wf_store_step[OF Cons.prems(1) sr1])
      show "processor_job_id_seq st \<le> processor_job_id_seq st1" using no[OF False] by simp
      show "processor_job_original_file_associations st1 =
           processor_job_original_file_associations st @ []"
        using no[OF False] by simp
      show "\<forall>a \<in> set []. processor_job a \<le> processor_job_id_seq st1" by simp
    qed
  qed
  have sub1: "set ss \<subseteq> set (samples st1)"
    using Cons.prems(2) sr1 by (simp add: same_rows_def)
  obtain st' new' where r: "rerun_samples env ss st1 = Inr st'"
    and wf': "wf_store st'" and sr': "same_rows st1 st'"
    and le': "processor_job_id_seq st1 \<le> processor_job_id_seq st'"
    and jobs': "processor_jobs st' = processor_jobs st1 @ new'"
    and ids': "map pj_id new' =
        [Suc (processor_job_id_seq st1) ..< Suc (processor_job_id_seq st')]"
    and files': "map (job_original_files st') new' =
         map (\<lambda>s. map of_id (sample_original_files st1 s)) (filter (receives_job env st1) ss)"
    and old': "\<forall>k \<le> processor_job_id_seq st1.
          filter (\<lambda>a. processor_job a = k) (processor_job_original_file_associations st') =
          filter (\<lambda>a. processor_job a = k) (processor_job_original_file_associations st1)"
    using Cons.IH[OF wf1 sub1] by blast
  have run: "rerun_samples env (s # ss) st = Inr st'" using c r by simp
  have sr: "same_rows st st'" by (rule same_rows_trans[OF sr1 sr'])
  have fe: "map of_id (sample_original_files st1 x) = map of_id (sample_original_files st x)" for x
  proof -
    have "map of_id (map clr (sample_original_files st1 x)) =
          map of_id (map clr (sample_original_files st x))"
      using sample_original_files_same_rows[OF sr1, of x] by simp
    then show ?thesis by (simp add: comp_def)
  qed
  have re: "receives_job env st1 x = receives_job env st x" for x
    by (rule receives_job_same_rows[OF ig sr1])
  have files'': "map (job_original_files st') new' =
         map (\<lambda>s. map of_id (sample_original_files st s)) (filter (receives_job env st) ss)"
  proof -
    have "receives_job env st1 = receives_job env st" using re by (intro ext)
    then show ?thesis using files' by (simp add: fe)
  qed
  show ?case
  proof (cases "receives_job env st s")
    case True
    note y = yes[OF True]
    have seq1: "processor_job_id_seq st1 = Suc (processor_job_id_seq st)" using y by simp
    have a: "processor_jobs st' = processor_jobs st @ (?j # new')" using jobs' y by simp
    have b: "map pj_id (?j # new') =
        [Suc (processor_job_id_seq st) ..< Suc (processor_job_id_seq st')]"
      using ids' idj seq1 le' by (simp add: upt_conv_Cons)
    have jf: "job_original_files st' ?j = map of_id ?fs"
    proof -
      have "filter (\<lambda>a. processor_job a = pj_id ?j)
              (processor_job_original_file_associations st') =
            filter (\<lambda>a. processor_job a = pj_id ?j)
              (processor_job_original_file_associations st1)"
        using old' idj seq1 by simp
      also have "\<dots> = filter (\<lambda>a. processor_job a = pj_id ?j) (map (association_of ?j) ?fs)"
        using y old_associations_below[OF Cons.prems(1), of "pj_id ?j"] idj by simp
      finally show ?thesis
        unfolding job_original_files_def by (simp only: job_files_of_new_job)
    qed
    have d: "map (job_original_files st') (?j # new') =
         map (\<lambda>s. map of_id (sample_original_files st s))
           (filter (receives_job env st) (s # ss))"
      using True jf files'' by simp
    have e: "filter (\<lambda>a. processor_job a = k) (processor_job_original_file_associations st') =
          filter (\<lambda>a. processor_job a = k) (processor_job_original_file_associations st)"
      if "k \<le> processor_job_id_seq st" for k
    proof -
      have "k \<le> processor_job_id_seq st1" using that seq1 by simp
      then have "filter (\<lambda>a. processor_job a = k)
              (processor_job_original_file_associations st') =
            filter (\<lambda>a. processor_job a = k) (processor_job_original_file_associations st1)"
        using old' by blast
      moreover have "k \<noteq> pj_id ?j" using that idj by simp
      ultimately show ?thesis using y other_job_files_of_new_job[of k ?j ?fs] by simp
    qed
    have le: "processor_job_id_seq st \<le> processor_job_id_seq st'" using le' seq1 by simp
    show ?thesis using run wf' sr le a b d e by blast
  next
    case False
    note n = no[OF False]
    have a: "processor_jobs st' = processor_jobs st @ new'" using jobs' n by simp
    have b: "map pj_id new' =
        [Suc (processor_job_id_seq st) ..< Suc (processor_job_id_seq st')]"
      using ids' n by simp
    have d: "map (job_original_files st') new' =
         map (\<lambda>s. map of_id (sample_original_files st s))
           (filter (receives_job env st) (s # ss))"
      using False files'' by simp
    have e: "\<forall>k \<le> processor_job_id_seq st.
          filter (\<lambda>a. processor_job a = k) (processor_job_original_file_associations st') =
          filter (\<lambda>a. processor_job a = k) (processor_job_original_file_associations st)"
      using old' n by simp
    have le: "processor_job_id_seq st \<le> processor_job_id_seq st'" using le' n by simp
    show ?thesis using run wf' sr le a b d e by blast
  qed
qed


lemma filter_removeAll_other: "\<not> P s \<Longrightarrow> filter P (removeAll s xs) = filter P xs"
  by (induction xs) auto

lemma samples_to_rerun_stale:
  "samples_to_rerun env st e latest = filter (stale env st latest) (experiment_samples st e)"
proof -
  have "(case annotated_salmon_version env st s of None \<Rightarrow> False | Some v \<Rightarrow> v \<noteq> latest)
        = stale env st latest s" for s
    by (simp add: stale_def split: option.splits)
  then show ?thesis by (simp add: samples_to_rerun_def)
qed

lemma update_salmon_versions_jobs:
  assumes ig: "ignores_downloaded env" and wf: "wf_store st"
    and two: "2 \<le> length (salmon_versions_of (get_quant_results_for_experiment env st e))"
  shows "\<exists>st' new.
     update_salmon_versions env e st = Inr st' \<and>
     processor_jobs st' = processor_jobs st @ new \<and>
     distinct (map pj_id new) \<and>
     map (job_original_files st') new =
       map (\<lambda>s. map of_id (sample_original_files st s))
         (filter (\<lambda>s. stale env st (latest_salmon_version env st e) s \<and> receives_job env st s)
            (experiment_samples st e))"
proof -
  let ?latest = "latest_salmon_version env st e"
  let ?ss = "samples_to_rerun env st e ?latest"
  have u: "update_salmon_versions env e st = rerun_samples env ?ss st"
    using two by (simp add: update_salmon_versions_def latest_salmon_version_def Let_def)
  have sub: "set ?ss \<subseteq> set (samples st)"
    by (auto simp: samples_to_rerun_def experiment_samples_def)
  obtain st' new where r: "rerun_samples env ?ss st = Inr st'"
    and jobs: "processor_jobs st' = processor_jobs st @ new"
    and ids: "map pj_id new =
        [Suc (processor_job_id_seq st) ..< Suc (processor_job_id_seq st')]"
    and files: "map (job_original_files st') new =
         map (\<lambda>s. map of_id (sample_original_files st s)) (filter (receives_job env st) ?ss)"
    using rerun_samples_jobs[OF ig wf sub] by blast
  have d: "distinct (map pj_id new)" using ids by simp
  have f: "filter (receives_job env st) ?ss =
      filter (\<lambda>s. stale env st ?latest s \<and> receives_job env st s) (experiment_samples st e)"
    by (simp add: samples_to_rerun_stale conj_commute)
  show ?thesis using u r jobs d files f by simp
qed

section \<open>Evaluation of the detector examples\<close>

lemma example_env_ignores_downloaded: "ignores_downloaded example_env"
  by (simp add: ignores_downloaded_def example_env_def)

lemma wf_store_with: "wf_store (store_with rs)"
  by (simp add: wf_store_def store_with_def file_F1_def file_F2_def file_F3_def)

lemma samples_distinct: "sample_S1 \<noteq> sample_S2" "sample_S1 \<noteq> sample_S3" "sample_S2 \<noteq> sample_S3"
  by (simp_all add: sample_S1_def sample_S2_def sample_S3_def)

lemma annotated_A:
  "annotated_salmon_version example_env scenario_A sample_S1 = Some ''0.9.0''"
  "annotated_salmon_version example_env scenario_A sample_S2 = Some ''1.0.0''"
  by (simp_all add: annotated_salmon_version_def newest_computational_results_def
      example_env_def scenario_A_def store_with_def result_of_def sample_S1_def sample_S2_def)

lemma files_store_with:
  "sample_original_files (store_with rs) sample_S1 = [file_F1]"
  "sample_original_files (store_with rs) sample_S2 = [file_F2, file_F3]"
  by (simp_all add: sample_original_files_def store_with_def sample_S1_def sample_S2_def
      file_F1_def file_F2_def file_F3_def)

lemma selected_F1: "selected_pipeline example_env (store_with rs) [file_F1] = SALMON"
  by (simp add: selected_pipeline_def example_env_def file_F1_def)

lemma stale_A:
  "stale example_env scenario_A ''1.0.0'' sample_S1"
  "\<not> stale example_env scenario_A ''1.0.0'' sample_S2"
  by (simp_all add: stale_def annotated_A)

lemma receives_S1: "receives_job example_env (store_with rs) sample_S1"
  by (simp add: receives_job_def files_store_with selected_F1)

lemma latest_A: "latest_salmon_version example_env scenario_A experiment_E = ''1.0.0''"
  by (simp add: latest_salmon_version_def versions_A)

lemma annotated_C:
  "annotated_salmon_version example_env scenario_C sample_S1 = Some ''0.9.0''"
  "newest_computational_results example_env scenario_C sample_S2 = []"
  by (simp_all add: annotated_salmon_version_def newest_computational_results_def
      example_env_def scenario_C_def store_with_def result_at_def sample_S1_def sample_S2_def)

lemma versions_C:
  "salmon_versions_of (get_quant_results_for_experiment example_env scenario_C experiment_E)
     = [''1.0.0'', ''0.9.0'']"
  by (simp add: example_env_def quant_results_of_def scenario_C_def experiment_samples_store_with
      salmon_versions_of_def version_row_def)
    (simp add: store_with_def result_at_def sample_S1_def sample_S2_def version_row_def)

lemma latest_C: "latest_salmon_version example_env scenario_C experiment_E = ''1.0.0''"
  by (simp add: latest_salmon_version_def versions_C)

lemma stale_C: "stale example_env scenario_C ''1.0.0'' sample_S1"
  by (simp add: stale_def annotated_C)


lemma new_job_store_with:
  "new_processor_job example_env (store_with rs) [file_F1] = job_J1"
  by (simp add: new_processor_job_def selected_F1 job_J1_def)
    (simp add: example_env_def store_with_def)

lemma store_with_empty:
  "processor_jobs (store_with rs) = []"
  "processor_job_original_file_associations (store_with rs) = []"
  by (simp_all add: store_with_def)

lemma scenario_A_facts:
  "experiment_samples scenario_A experiment_E = [sample_S1, sample_S2]"
  "receives_job example_env scenario_A sample_S1"
  "sample_original_files scenario_A sample_S1 = [file_F1]"
  "selected_pipeline example_env scenario_A [file_F1] = SALMON"
  "new_processor_job example_env scenario_A [file_F1] = job_J1"
  "wf_store scenario_A"
  "processor_jobs scenario_A = []"
  "processor_job_original_file_associations scenario_A = []"
  by (simp_all add: scenario_A_def experiment_samples_store_with receives_S1 files_store_with
      selected_F1 new_job_store_with wf_store_with store_with_empty)

lemma scenario_C_facts:
  "experiment_samples scenario_C experiment_E = [sample_S1, sample_S2]"
  "receives_job example_env scenario_C sample_S1"
  "sample_original_files scenario_C sample_S1 = [file_F1]"
  "selected_pipeline example_env scenario_C [file_F1] = SALMON"
  "new_processor_job example_env scenario_C [file_F1] = job_J1"
  "wf_store scenario_C"
  "processor_jobs scenario_C = []"
  "processor_job_original_file_associations scenario_C = []"
  by (simp_all add: scenario_C_def experiment_samples_store_with receives_S1 files_store_with
      selected_F1 new_job_store_with wf_store_with store_with_empty)

lemma to_rerun_A:
  "filter (\<lambda>s. stale example_env scenario_A ''1.0.0'' s \<and> receives_job example_env scenario_A s)
     (experiment_samples scenario_A experiment_E) = [sample_S1]"
  by (simp add: scenario_A_facts stale_A)

lemma update_A:
  "\<exists>st'. update_salmon_versions example_env experiment_E scenario_A = Inr st' \<and>
     processor_jobs st' = [job_J1] \<and>
     processor_job_original_file_associations st' = [\<lparr>original_file = 1, processor_job = 1\<rparr>]"
proof -
  have s: "samples_to_rerun example_env scenario_A experiment_E ''1.0.0'' = [sample_S1]"
    by (simp add: samples_to_rerun_stale scenario_A_facts stale_A)
  have ne: "[file_F1] \<noteq> []" by simp
  have p: "selected_pipeline example_env scenario_A [file_F1] \<noteq> NONE"
    by (simp add: scenario_A_facts)
  have di: "distinct (map of_id [file_F1])" by simp
  have iss: "issued_job_references scenario_A"
    by (rule wf_store_issued[OF scenario_A_facts(6)])
  have u: "update_salmon_versions example_env experiment_E scenario_A =
      create_processor_job_for_original_files example_env [file_F1] scenario_A"
    by (simp add: update_salmon_versions_def versions_A Let_def s scenario_A_facts
        split: sum.splits)
  show ?thesis
    unfolding u create_with_pipeline[OF ne p di iss] scenario_A_facts(5)
    by (simp add: scenario_A_facts association_of_def job_J1_def file_F1_def)
qed

section \<open>Experiments with one version\<close>

text \<open>
  When the list built for an experiment has at most one entry, the staleness detector
  returns at once: the store, journal included, is the one it was given.
\<close>

lemma short_version_list_untouched:
  assumes "length (salmon_versions_of (get_quant_results_for_experiment env st e)) \<le> 1"
  shows "update_salmon_versions env e st = Inr st"
  using assms by (simp add: update_salmon_versions_def)





section \<open>Properties of the job factory\<close>

lemma first_sample_F: 
  "qs_first (file_samples (store_with rs) file_F1) = Some sample_S1"
  "qs_first (file_samples (store_with rs) file_F3) = Some sample_S2"
  by (simp_all add: qs_first_def file_samples_def store_with_def file_F1_def file_F3_def
      sample_S1_def sample_S2_def)

lemma scenario_A_tables:
  "processor_jobs scenario_A = []" "processor_job_original_file_associations scenario_A = []"
  "processor_job_id_seq scenario_A = 0" "journal scenario_A = []"
  "issued_job_references scenario_A"
  by (simp_all add: scenario_A_def store_with_def issued_job_references_def)

text \<open>
  A sequence that names a file twice: the store refuses the second association. The job
  and the first association are saved; the call raises and nothing is submitted.
\<close>

theorem duplicate_file_refused_counterexample:
  "[file_F1, file_F1] \<noteq> [] \<and>
   selected_pipeline example_env scenario_A [file_F1, file_F1] \<noteq> NONE \<and>
   create_processor_job_for_original_files example_env [file_F1, file_F1] scenario_A =
     Inl (IntegrityError,
          scenario_A\<lparr>processor_jobs := [job_J1],
            processor_job_id_seq := 1,
            processor_job_original_file_associations :=
              [\<lparr>original_file = 1, processor_job = 1\<rparr>],
            journal := [SaveProcessorJob job_J1,
                        SaveAssociation \<lparr>original_file = 1, processor_job = 1\<rparr>]\<rparr>)"
proof -
  have p: "selected_pipeline example_env scenario_A [file_F1, file_F1] = SALMON"
    by (simp add: selected_pipeline_def example_env_def file_F1_def)
  have c: "create_processor_job_for_original_files example_env [file_F1, file_F1] scenario_A =
     Inl (IntegrityError,
          scenario_A\<lparr>processor_jobs := [job_J1],
            processor_job_id_seq := 1,
            processor_job_original_file_associations :=
              [\<lparr>original_file = 1, processor_job = 1\<rparr>],
            journal := [SaveProcessorJob job_J1,
                        SaveAssociation \<lparr>original_file = 1, processor_job = 1\<rparr>]\<rparr>)"
    by (simp add: create_processor_job_for_original_files_def Let_def example_env_def
        save_processor_job_def save_association_def scenario_A_tables job_J1_def file_F1_def)
  show ?thesis using p c by simp
qed

text \<open>
  Claim C4, amended. For a non-empty sequence of pairwise distinct files whose selected
  pipeline is not \<open>NONE\<close>, in a store whose associations refer to issued job keys, the job
  factory returns normally, having added exactly one job, whose pipeline and RAM amount are
  set, and one association per file: the i-th association joins the new job and the i-th
  file, so the associations point to pairwise distinct files. The journal shows the job
  saved first and the associations after it, in the order of the files, followed by the
  submission.
\<close>

theorem job_and_associations_persisted:
  assumes "fs \<noteq> []" and "selected_pipeline env st fs \<noteq> NONE"
    and "distinct (map of_id fs)" and "issued_job_references st"
  shows "\<exists>st' job.
     create_processor_job_for_original_files env fs st = Inr st' \<and>
     processor_jobs st' = processor_jobs st @ [job] \<and>
     pipeline_applied job = pipeline_value (selected_pipeline env st fs) \<and>
     ram_amount job =
       determine_ram_amount env (qs_first (file_samples st (fs ! 0))) (pipeline_applied job) \<and>
     processor_job_original_file_associations st' =
       processor_job_original_file_associations st @ map (association_of job) fs \<and>
     map original_file (map (association_of job) fs) = map of_id fs \<and>
     map processor_job (map (association_of job) fs) = replicate (length fs) (pj_id job) \<and>
     distinct (map original_file (map (association_of job) fs)) \<and>
     journal st' = journal st @ [SaveProcessorJob job] @
       map (\<lambda>f. SaveAssociation (association_of job f)) fs @
       [SendJob (selected_pipeline env st fs) job
          (send_job env (selected_pipeline env st fs) job)]"
proof -
  let ?job = "new_processor_job env st fs"
  have a: "map original_file (map (association_of ?job) fs) = map of_id fs"
    by (simp add: association_of_def comp_def)
  have b: "map processor_job (map (association_of ?job) fs) = replicate (length fs) (pj_id ?job)"
    by (simp add: association_of_def comp_def map_replicate_const)
  have c: "distinct (map original_file (map (association_of ?job) fs))"
    unfolding a by (rule assms(3))
  have d: "pipeline_applied ?job = pipeline_value (selected_pipeline env st fs)"
    "ram_amount ?job =
       determine_ram_amount env (qs_first (file_samples st (fs ! 0))) (pipeline_applied ?job)"
    by (simp_all add: new_processor_job_def)
  show ?thesis
    using a b c d by (simp add: create_with_pipeline[OF assms])
qed

theorem job_and_associations_persisted_witness:
  "[file_F2, file_F3] \<noteq> [] \<and>
   selected_pipeline example_env scenario_A [file_F2, file_F3] \<noteq> NONE \<and>
   distinct (map of_id [file_F2, file_F3]) \<and> issued_job_references scenario_A \<and>
   (\<exists>st'. create_processor_job_for_original_files example_env [file_F2, file_F3] scenario_A
            = Inr st' \<and>
      processor_jobs st' = [job_J1] \<and>
      processor_job_original_file_associations st' =
        [\<lparr>original_file = 2, processor_job = 1\<rparr>, \<lparr>original_file = 3, processor_job = 1\<rparr>])"
proof -
  have h1: "[file_F2, file_F3] \<noteq> []" by simp
  have p: "selected_pipeline example_env scenario_A [file_F2, file_F3] = SALMON"
    by (simp add: selected_pipeline_def example_env_def file_F2_def)
  have h2: "selected_pipeline example_env scenario_A [file_F2, file_F3] \<noteq> NONE"
    by (simp add: p)
  have h3: "distinct (map of_id [file_F2, file_F3])" by (simp add: file_F2_def file_F3_def)
  have h4: "issued_job_references scenario_A" by (rule scenario_A_tables)
  obtain st' job where r:
     "create_processor_job_for_original_files example_env [file_F2, file_F3] scenario_A = Inr st'"
     "processor_jobs st' = processor_jobs scenario_A @ [job]"
     "pipeline_applied job =
        pipeline_value (selected_pipeline example_env scenario_A [file_F2, file_F3])"
     "ram_amount job =
       determine_ram_amount example_env
         (qs_first (file_samples scenario_A ([file_F2, file_F3] ! 0))) (pipeline_applied job)"
     "processor_job_original_file_associations st' =
       processor_job_original_file_associations scenario_A @
         map (association_of job) [file_F2, file_F3]"
    using job_and_associations_persisted [OF h1 h2 h3 h4] by blast
  have e: "create_processor_job_for_original_files example_env [file_F2, file_F3] scenario_A =
     Inr (scenario_A\<lparr>processor_jobs :=
              processor_jobs scenario_A @
                [new_processor_job example_env scenario_A [file_F2, file_F3]],
            processor_job_id_seq := Suc (processor_job_id_seq scenario_A),
            processor_job_original_file_associations :=
              processor_job_original_file_associations scenario_A @
                map (association_of (new_processor_job example_env scenario_A [file_F2, file_F3]))
                  [file_F2, file_F3],
            journal := journal scenario_A @
              [SaveProcessorJob (new_processor_job example_env scenario_A [file_F2, file_F3])] @
              map (\<lambda>f. SaveAssociation
                     (association_of (new_processor_job example_env scenario_A [file_F2, file_F3]) f))
                [file_F2, file_F3] @
              [SendJob (selected_pipeline example_env scenario_A [file_F2, file_F3])
                 (new_processor_job example_env scenario_A [file_F2, file_F3])
                 (send_job example_env (selected_pipeline example_env scenario_A [file_F2, file_F3])
                    (new_processor_job example_env scenario_A [file_F2, file_F3]))]\<rparr>)"
    (is "_ = Inr ?res")
    by (rule create_with_pipeline[OF h1 h2 h3 h4])
  have n: "new_processor_job example_env scenario_A [file_F2, file_F3] = job_J1"
    by (simp add: new_processor_job_def p job_J1_def scenario_A_tables)
      (simp add: example_env_def)
  have res: "st' = ?res" using r(1) e by simp
  have "processor_jobs st' =
      processor_jobs scenario_A @ [new_processor_job example_env scenario_A [file_F2, file_F3]]"
    unfolding res by simp
  then have "job = new_processor_job example_env scenario_A [file_F2, file_F3]"
    using r(2) by simp
  then have j: "job = job_J1" using n by simp
  have "processor_jobs st' = [job_J1]" using r(2) j by (simp add: scenario_A_tables)
  moreover have "processor_job_original_file_associations st' =
        [\<lparr>original_file = 2, processor_job = 1\<rparr>, \<lparr>original_file = 3, processor_job = 1\<rparr>]"
    using r(5) j
    by (simp add: scenario_A_tables association_of_def job_J1_def file_F2_def file_F3_def)
  ultimately show ?thesis using h1 h2 h3 h4 r(1) by simp
qed

text \<open>
  For a non-empty sequence of files whose first file has a sample and selects no pipeline,
  the job factory returns normally; it adds no job and no association; for every file, in
  order, it deletes the local copy and saves the file with the downloaded flag cleared;
  afterwards the store holds a row for every file of the sequence and no row of such a file
  is flagged as downloaded.
\<close>

lemma files_without_pipeline_cleared:
  assumes "fs \<noteq> []" and "qs_first (file_samples st (fs ! 0)) = Some s"
    and "selected_pipeline env st fs = NONE"
  shows "\<exists>st'.
     create_processor_job_for_original_files env fs st = Inr st' \<and>
     processor_jobs st' = processor_jobs st \<and>
     processor_job_original_file_associations st' = processor_job_original_file_associations st \<and>
     journal st' = journal st @ concat (map clearing_effects fs) \<and>
     (\<forall>f \<in> set fs.
        (\<exists>g \<in> set (original_files st'). of_id g = of_id f) \<and>
        (\<forall>g \<in> set (original_files st'). of_id g = of_id f \<longrightarrow> \<not> is_downloaded g))"
proof -
  let ?st' = "fold clear_downloaded fs st"
  have r: "create_processor_job_for_original_files env fs st = Inr ?st'"
    using assms
    by (simp add: create_processor_job_for_original_files_def selected_pipeline_def Let_def)
  have rows: "(\<exists>g \<in> set (original_files ?st'). of_id g = of_id f) \<and>
        (\<forall>g \<in> set (original_files ?st'). of_id g = of_id f \<longrightarrow> \<not> is_downloaded g)"
    if "f \<in> set fs" for f
  proof -
    have "of_id f \<in> of_id ` set (original_files ?st')"
      using fold_clear_downloaded_rows[of fs st] that by blast
    moreover have "\<not> is_downloaded g"
      if "g \<in> set (original_files ?st')" "of_id g = of_id f" for g
      using fold_clear_downloaded_rows[of fs st] that \<open>f \<in> set fs\<close> by blast
    ultimately show ?thesis by force
  qed
  have same: "processor_jobs ?st' = processor_jobs st"
    "processor_job_original_file_associations ?st' = processor_job_original_file_associations st"
    "journal ?st' = journal st @ concat (map clearing_effects fs)"
    using fold_clear_downloaded_journal[of fs st] by blast+
  show ?thesis
  proof (intro exI conjI)
    show "create_processor_job_for_original_files env fs st = Inr ?st'" by (rule r)
    show "processor_jobs ?st' = processor_jobs st" by (rule same)
    show "processor_job_original_file_associations ?st' =
        processor_job_original_file_associations st" by (rule same)
    show "journal ?st' = journal st @ concat (map clearing_effects fs)" by (rule same)
    show "\<forall>f \<in> set fs.
        (\<exists>g \<in> set (original_files ?st'). of_id g = of_id f) \<and>
        (\<forall>g \<in> set (original_files ?st'). of_id g = of_id f \<longrightarrow> \<not> is_downloaded g)"
      using rows by blast
  qed
qed


lemma files_without_pipeline_cleared_example:
  "[file_F3] \<noteq> [] \<and>
   qs_first (file_samples scenario_A ([file_F3] ! 0)) = Some sample_S2 \<and>
   selected_pipeline example_env scenario_A [file_F3] = NONE \<and>
   (\<exists>st'. create_processor_job_for_original_files example_env [file_F3] scenario_A = Inr st' \<and>
      processor_jobs st' = [] \<and>
      processor_job_original_file_associations st' = [] \<and>
      journal st' = [DeleteLocalFile 3, SaveOriginalFile (file_F3\<lparr>is_downloaded := False\<rparr>)] \<and>
      list_all (\<lambda>g. of_id g = 3 \<longrightarrow> \<not> is_downloaded g) (original_files st') \<and>
      list_ex (\<lambda>g. of_id g = 3) (original_files st'))"
proof -
  have h1: "[file_F3] \<noteq> []" by simp
  have h2: "qs_first (file_samples scenario_A ([file_F3] ! 0)) = Some sample_S2"
    by (simp add: first_sample_F scenario_A_def)
  have h3: "selected_pipeline example_env scenario_A [file_F3] = NONE"
    by (simp add: selected_pipeline_def example_env_def file_F3_def)
  have j: "processor_jobs scenario_A = []" "processor_job_original_file_associations scenario_A = []"
    "journal scenario_A = []"
    by (simp_all add: scenario_A_def store_with_def)
  show ?thesis
    using h1 h2 h3 files_without_pipeline_cleared [OF h1 h2 h3] j
    by (auto simp: clearing_effects_def list_all_iff list_ex_iff file_F3_def)
qed


text \<open>
  Claim C5 fails on the code. When the first file of the sequence has no sample and no
  pipeline is selected for it, the log call of that branch reads \<open>sample_object.id\<close> of
  \<open>None\<close>: the job factory raises \<open>AttributeError\<close> instead of returning, and the store is
  as it was, so the file keeps its downloaded flag and its local copy.
\<close>

theorem unsupported_orphan_file_raises:
  "[orphan_file] \<noteq> [] \<and>
   file_samples scenario_A orphan_file = [] \<and>
   selected_pipeline example_env scenario_A [orphan_file] = NONE \<and>
   is_downloaded orphan_file \<and>
   create_processor_job_for_original_files example_env [orphan_file] scenario_A =
     Inl (AttributeError, scenario_A)"
proof -
  have s: "file_samples scenario_A orphan_file = []"
    by (simp add: file_samples_def scenario_A_def store_with_def orphan_file_def)
  have p: "selected_pipeline example_env scenario_A [orphan_file] = NONE"
    by (simp add: selected_pipeline_def example_env_def orphan_file_def)
  have c: "create_processor_job_for_original_files example_env [orphan_file] scenario_A =
     Inl (AttributeError, scenario_A)"
    using p by (simp add: create_processor_job_for_original_files_def selected_pipeline_def
        Let_def s qs_first_def)
  show ?thesis using s p c by (simp add: orphan_file_def)
qed

lemma selected_pipeline_send_job [simp]:
  "selected_pipeline (env\<lparr>send_job := q\<rparr>) st fs = selected_pipeline env st fs"
  by (simp add: selected_pipeline_def)

lemma new_processor_job_send_job [simp]:
  "new_processor_job (env\<lparr>send_job := q\<rparr>) st fs = new_processor_job env st fs"
  by (simp add: new_processor_job_def)

text \<open>
  Claim C6. When the submission of the new job to the dispatch queue raises (the files
  being pairwise distinct and the associations of the store referring to issued job keys,
  so that the job and its associations have been saved and the submission is reached), the
  job factory still returns normally; the job and its associations are in the store, the
  journal ends with the failed submission, and jobs, associations and files are the same as
  with any other behaviour of the queue.
\<close>

theorem submission_failure_absorbed:
  assumes "fs \<noteq> []" and "selected_pipeline env st fs \<noteq> NONE"
    and "distinct (map of_id fs)" and "issued_job_references st"
    and "send_job env (selected_pipeline env st fs) (new_processor_job env st fs) = Some x"
  shows "\<exists>st'.
     create_processor_job_for_original_files env fs st = Inr st' \<and>
     processor_jobs st' = processor_jobs st @ [new_processor_job env st fs] \<and>
     processor_job_original_file_associations st' =
       processor_job_original_file_associations st @
         map (association_of (new_processor_job env st fs)) fs \<and>
     journal st' = journal st @ [SaveProcessorJob (new_processor_job env st fs)] @
       map (\<lambda>f. SaveAssociation (association_of (new_processor_job env st fs) f)) fs @
       [SendJob (selected_pipeline env st fs) (new_processor_job env st fs) (Some x)] \<and>
     (\<forall>q. \<exists>st''.
        create_processor_job_for_original_files (env\<lparr>send_job := q\<rparr>) fs st = Inr st'' \<and>
        processor_jobs st'' = processor_jobs st' \<and>
        processor_job_original_file_associations st'' =
          processor_job_original_file_associations st' \<and>
        original_files st'' = original_files st' \<and>
        processor_job_id_seq st'' = processor_job_id_seq st')"
proof -
  have other: "selected_pipeline (env\<lparr>send_job := q\<rparr>) st fs \<noteq> NONE" for q
    using assms(2) by simp
  show ?thesis
    using assms(5)
    by (simp add: create_with_pipeline[OF assms(1,2,3,4)]
        create_with_pipeline[OF assms(1) other assms(3,4)])
qed

theorem submission_failure_absorbed_witness:
  "[file_F1] \<noteq> [] \<and>
   selected_pipeline failing_queue_env scenario_A [file_F1] \<noteq> NONE \<and>
   distinct (map of_id [file_F1]) \<and> issued_job_references scenario_A \<and>
   send_job failing_queue_env (selected_pipeline failing_queue_env scenario_A [file_F1])
     (new_processor_job failing_queue_env scenario_A [file_F1]) = Some QueueError \<and>
   (\<exists>st'. create_processor_job_for_original_files failing_queue_env [file_F1] scenario_A = Inr st' \<and>
      processor_jobs st' = [\<lparr>pj_id = 1, pipeline_applied = ''SALMON'', ram_amount = 2048\<rparr>] \<and>
      processor_job_original_file_associations st' = [\<lparr>original_file = 1, processor_job = 1\<rparr>])"
proof -
  have h1: "[file_F1] \<noteq> []" by simp
  have p: "selected_pipeline failing_queue_env scenario_A [file_F1] = SALMON"
    by (simp add: selected_pipeline_def failing_queue_env_def example_env_def file_F1_def)
  have h2: "selected_pipeline failing_queue_env scenario_A [file_F1] \<noteq> NONE"
    by (simp add: p)
  have h3: "distinct (map of_id [file_F1])" by simp
  have h4: "issued_job_references scenario_A"
    by (simp add: issued_job_references_def scenario_A_def store_with_def)
  have h5: "send_job failing_queue_env (selected_pipeline failing_queue_env scenario_A [file_F1])
     (new_processor_job failing_queue_env scenario_A [file_F1]) = Some QueueError"
    by (simp add: failing_queue_env_def)
  have n: "new_processor_job failing_queue_env scenario_A [file_F1] =
      \<lparr>pj_id = 1, pipeline_applied = ''SALMON'', ram_amount = 2048\<rparr>"
    by (simp add: new_processor_job_def p)
      (simp add: failing_queue_env_def example_env_def scenario_A_def store_with_def)
  have j: "processor_jobs scenario_A = []" "processor_job_original_file_associations scenario_A = []"
    by (simp_all add: scenario_A_def store_with_def)
  show ?thesis
    using h1 h2 h3 h4 h5 submission_failure_absorbed [OF h1 h2 h3 h4 h5] n j
    by (auto simp: association_of_def file_F1_def)
qed

section \<open>The version list\<close>

lemma salmon_versions_of_rows:
  "salmon_versions_of rs = map fst (sort_key (\<lambda>row. - snd row) (remdups (map version_row rs)))"
  by (simp add: salmon_versions_of_def)

text \<open>
  The version list is not the list of versions by descending creation time of the result:
  where the newer result used the older index, the list starts with the version of the newer
  index.
\<close>

theorem versions_of_result_creation_counterexample:
  "salmon_versions_of newer_result_older_index = [''1.0.0'', ''0.9.0''] \<and>
   versions_by_result_creation newer_result_older_index = [''0.9.0'', ''1.0.0''] \<and>
   salmon_versions_of newer_result_older_index \<noteq>
     versions_by_result_creation newer_result_older_index"
  by (simp add: salmon_versions_of_def versions_by_result_creation_def version_row_def
      newer_result_older_index_def)

text \<open>
  Claim C2, amended. The version list holds the versions of the experiment's quantification
  results, ordered by descending creation time of the organism index that the result
  refers to: every entry is the version of a result, every version of a result is an entry,
  and the first entry is the version of an index created no earlier than the index of any
  result. The list is free of duplicates whenever no version comes with two index creation
  times.
\<close>

theorem versions_by_index_creation:
  "\<exists>rows.
     salmon_versions_of rs = map fst rows \<and>
     set rows = version_row ` set rs \<and>
     (\<forall>i j. i < j \<and> j < length rows \<longrightarrow> snd (rows ! j) \<le> snd (rows ! i)) \<and>
     (\<forall>r \<in> set rs. rows \<noteq> [] \<and> snd (version_row r) \<le> snd (rows ! 0)) \<and>
     ((\<forall>r \<in> set rs. \<forall>r' \<in> set rs.
         fst (version_row r) = fst (version_row r') \<longrightarrow> snd (version_row r) = snd (version_row r'))
       \<longrightarrow> distinct (salmon_versions_of rs))"
proof -
  let ?rows = "sort_key (\<lambda>row. - snd row) (remdups (map version_row rs))"
  have v: "salmon_versions_of rs = map fst ?rows" by (rule salmon_versions_of_rows)
  have s: "set ?rows = version_row ` set rs" by simp
  have d: "distinct ?rows" by simp
  have srt: "sorted (map (\<lambda>row. - snd row) ?rows)" by (rule sorted_sort_key)
  have desc: "snd (?rows ! j) \<le> snd (?rows ! i)" if "i < j" "j < length ?rows" for i j
  proof -
    have "map (\<lambda>row. - snd row) ?rows ! i \<le> map (\<lambda>row. - snd row) ?rows ! j"
      using srt that by (simp add: sorted_iff_nth_mono del: length_sort sorted_sort_key)
    then show ?thesis using that by simp
  qed
  have top: "?rows \<noteq> [] \<and> snd (version_row r) \<le> snd (?rows ! 0)" if "r \<in> set rs" for r
  proof -
    have m: "version_row r \<in> set ?rows" using that s by blast
    then obtain j where j: "j < length ?rows" "?rows ! j = version_row r"
      by (meson in_set_conv_nth)
    from m have ne: "?rows \<noteq> []" by (metis empty_iff empty_set)
    have "snd (?rows ! j) \<le> snd (?rows ! 0)"
    proof (cases "j = 0")
      case True then show ?thesis by simp
    next
      case False then show ?thesis using desc[of 0 j] j by simp
    qed
    then show ?thesis using ne j by simp
  qed
  have dv: "distinct (salmon_versions_of rs)"
    if fd: "\<forall>r \<in> set rs. \<forall>r' \<in> set rs.
         fst (version_row r) = fst (version_row r') \<longrightarrow> snd (version_row r) = snd (version_row r')"
  proof -
    have "inj_on fst (set ?rows)"
    proof (rule inj_onI)
      fix a b assume a: "a \<in> set ?rows" and b: "b \<in> set ?rows" and e: "fst a = fst b"
      from a s obtain r where r: "r \<in> set rs" "a = version_row r" by blast
      from b s obtain r' where r': "r' \<in> set rs" "b = version_row r'" by blast
      have "snd a = snd b" using fd r r' e by blast
      then show "a = b" using e by (simp add: prod_eq_iff)
    qed
    then show ?thesis using d v by (simp add: distinct_map del: distinct_sort)
  qed
  show ?thesis
  proof (intro exI conjI)
    show "salmon_versions_of rs = map fst ?rows" by (rule v)
    show "set ?rows = version_row ` set rs" by (rule s)
    show "\<forall>i j. i < j \<and> j < length ?rows \<longrightarrow> snd (?rows ! j) \<le> snd (?rows ! i)"
      using desc by blast
    show "\<forall>r \<in> set rs. ?rows \<noteq> [] \<and> snd (version_row r) \<le> snd (?rows ! 0)"
      using top by blast
    show "(\<forall>r \<in> set rs. \<forall>r' \<in> set rs.
         fst (version_row r) = fst (version_row r') \<longrightarrow> snd (version_row r) = snd (version_row r'))
       \<longrightarrow> distinct (salmon_versions_of rs)"
      using dv by blast
  qed
qed

theorem versions_by_index_creation_witness:
  "salmon_versions_of newer_result_older_index = [''1.0.0'', ''0.9.0''] \<and>
   (\<exists>rows. salmon_versions_of newer_result_older_index = map fst rows \<and>
      set rows = version_row ` set newer_result_older_index \<and>
      snd (rows ! 1) \<le> snd (rows ! 0)) \<and>
   distinct (salmon_versions_of newer_result_older_index)"
proof -
  have fd: "\<forall>r \<in> set newer_result_older_index. \<forall>r' \<in> set newer_result_older_index.
         fst (version_row r) = fst (version_row r') \<longrightarrow> snd (version_row r) = snd (version_row r')"
    by (simp add: newer_result_older_index_def version_row_def)
  obtain rows where rows: "salmon_versions_of newer_result_older_index = map fst rows"
     "set rows = version_row ` set newer_result_older_index"
     "\<forall>i j. i < j \<and> j < length rows \<longrightarrow> snd (rows ! j) \<le> snd (rows ! i)"
     "(\<forall>r \<in> set newer_result_older_index. \<forall>r' \<in> set newer_result_older_index.
         fst (version_row r) = fst (version_row r') \<longrightarrow> snd (version_row r) = snd (version_row r'))
       \<longrightarrow> distinct (salmon_versions_of newer_result_older_index)"
    using versions_by_index_creation [of newer_result_older_index] by blast
  have v: "salmon_versions_of newer_result_older_index = [''1.0.0'', ''0.9.0'']"
    by (simp add: salmon_versions_of_def version_row_def newer_result_older_index_def)
  have l: "length rows = 2" using rows(1) v by (metis length_map length_Cons list.size(3) numeral_2_eq_2)
  have o: "snd (rows ! 1) \<le> snd (rows ! 0)" using rows(3) l by simp
  have dd: "distinct (salmon_versions_of newer_result_older_index)" using rows(4) fd by blast
  show ?thesis using v rows(1,2) o dd by blast
qed

section \<open>The pipeline selector\<close>

lemma upper_char_C: "upper_char a = CHR ''C'' \<longleftrightarrow> a = CHR ''c'' \<or> a = CHR ''C''"
  by (simp add: upper_char_def) 

lemma upper_char_E: "upper_char a = CHR ''E'' \<longleftrightarrow> a = CHR ''e'' \<or> a = CHR ''E''"
  by (simp add: upper_char_def) 

lemma upper_char_L: "upper_char a = CHR ''L'' \<longleftrightarrow> a = CHR ''l'' \<or> a = CHR ''L''"
  by (simp add: upper_char_def) 

lemma contains_iff: "contains sub s \<longleftrightarrow> (\<exists>pre post. s = pre @ sub @ post)"
proof (induction s)
  case Nil
  show ?case by auto
next
  case (Cons c cs)
  show ?case
  proof
    assume "contains sub (c # cs)"
    then consider "take (length sub) (c # cs) = sub" | "contains sub cs" by auto
    then show "\<exists>pre post. c # cs = pre @ sub @ post"
    proof cases
      case 1
      then have "c # cs = [] @ sub @ drop (length sub) (c # cs)"
        by (metis append_Nil append_take_drop_id)
      then show ?thesis by blast
    next
      case 2
      then obtain pre post where "cs = pre @ sub @ post" using Cons.IH by blast
      then have "c # cs = (c # pre) @ sub @ post" by simp
      then show ?thesis by blast
    qed
  next
    assume "\<exists>pre post. c # cs = pre @ sub @ post"
    then obtain pre post where e: "c # cs = pre @ sub @ post" by blast
    show "contains sub (c # cs)"
    proof (cases pre)
      case Nil
      then have "take (length sub) (c # cs) = sub" using e by simp
      then show ?thesis by simp
    next
      case (Cons p pre')
      then have "cs = pre' @ sub @ post" using e by simp
      then have "contains sub cs" using Cons.IH by blast
      then show ?thesis by simp
    qed
  qed
qed

lemma contains_CEL_upper: "contains ''CEL'' (upper s) \<longleftrightarrow> cel_at s"
proof
  assume "contains ''CEL'' (upper s)"
  then obtain pre post where e: "map upper_char s = pre @ ''CEL'' @ post"
    by (auto simp: contains_iff upper_def)
  then obtain s1 s2 where s: "s = s1 @ s2" "map upper_char s1 = pre"
      "map upper_char s2 = ''CEL'' @ post"
    by (auto simp: map_eq_append_conv)
  from s(3) obtain a b c s3 where t: "s2 = a # b # c # s3" "upper_char a = CHR ''C''"
      "upper_char b = CHR ''E''" "upper_char c = CHR ''L''"
    by (auto simp: map_eq_Cons_conv)
  have "s = s1 @ [a, b, c] @ s3" using s(1) t(1) by simp
  then show "cel_at s"
    unfolding cel_at_def using t(2,3,4) upper_char_C upper_char_E upper_char_L by blast
next
  assume "cel_at s"
  then obtain pre a b c post where e: "s = pre @ [a, b, c] @ post"
     "upper_char a = CHR ''C''" "upper_char b = CHR ''E''" "upper_char c = CHR ''L''"
    unfolding cel_at_def using upper_char_C upper_char_E upper_char_L by blast
  then have "upper s = map upper_char pre @ ''CEL'' @ map upper_char post"
    by (simp add: upper_def)
  then show "contains ''CEL'' (upper s)" unfolding contains_iff by blast
qed

text \<open>
  The job factory of the downloader test applies the same rule to a raw data file when no
  pipeline is passed, and gives a file without raw data a job of the pipeline \<open>NO_OP\<close>.
\<close>

lemma no_send_pipeline_by_file:
  "no_send_pipeline_applied None f =
     (if \<not> has_raw f then pipeline_value NO_OP
      else pipeline_value (pipeline_selector s f))"
  by (simp add: no_send_pipeline_applied_def pipeline_selector_def Let_def)

text \<open>
  Claim C8. The pipeline selector is a function of the file: for every file and sample it
  returns one classification, which is \<open>NONE\<close> when the file lacks the raw data flag,
  \<open>AFFY_TO_PCL\<close> when the file has it and its name holds \<open>CEL\<close> in some mix of cases, and
  \<open>AGILENT_TWOCOLOR_TO_PCL\<close> when the file has it and its name does not; the sample does not
  change the result.
\<close>

theorem pipeline_selector_total:
  "pipeline_selector s f =
     (if \<not> has_raw f then NONE
      else if cel_at (filename f) then AFFY_TO_PCL
      else AGILENT_TWOCOLOR_TO_PCL) \<and>
   pipeline_selector s f \<in> {NONE, AFFY_TO_PCL, AGILENT_TWOCOLOR_TO_PCL} \<and>
   pipeline_selector s f = pipeline_selector s' f"
  by (simp add: pipeline_selector_def contains_CEL_upper)

theorem pipeline_selector_total_witness:
  "has_raw cel_file \<and> cel_at (filename cel_file) \<and>
   pipeline_selector None cel_file = AFFY_TO_PCL \<and>
   \<not> has_raw txt_file \<and> pipeline_selector None txt_file = NONE \<and>
   pipeline_selector None file_F1 = AGILENT_TWOCOLOR_TO_PCL"
proof -
  have c: "cel_at (filename cel_file)"
    unfolding cel_at_def cel_file_def
    by (simp, rule exI[of _ "''GSM1.''"], rule exI[of _ "CHR ''c''"], rule exI[of _ "CHR ''e''"],
        rule exI[of _ "CHR ''l''"], simp)
  have r: "has_raw cel_file" "\<not> has_raw txt_file" "has_raw file_F1"
    by (simp_all add: cel_file_def txt_file_def file_F1_def)
  have n: "\<not> cel_at (filename file_F1)"
    unfolding contains_CEL_upper[symmetric]
    by (simp add: file_F1_def upper_def upper_char_def)
  show ?thesis
    using c r n pipeline_selector_total [of None cel_file None]
      pipeline_selector_total [of None txt_file None]
      pipeline_selector_total [of None file_F1 None] by simp
qed
section \<open>The retry driver\<close>

lemma requeue_loop_same_page:
  "has_next page \<Longrightarrow> requeue_loop fuel create_downloader_job page st = None"
  by (induction fuel arbitrary: st) simp_all

lemma requeue_loop_last_page:
  "\<not> has_next page \<Longrightarrow> requeue_loop (Suc fuel) create_downloader_job page st = Some st"
  by simp

lemma sra_samples_mixed: "sra_samples mixed_store = [sra_unprocessed, sra_processed]"
  by (simp add: sra_samples_def mixed_store_def store_of_samples_def sra_unprocessed_def
      geo_unprocessed_def sra_processed_def)

lemma sra_samples_two_page: "length (sra_samples two_page_store) = 2001"
  by (simp add: sra_samples_def two_page_store_def store_of_samples_def filter_map comp_def)

lemma first_page_two_page:
  "has_next (paginator_page (sra_samples two_page_store) PAGE_SIZE 1)"
  by (simp add: has_next_def paginator_page_def paginator_num_pages_def PAGE_SIZE_def
      sra_samples_two_page)

lemma first_page_mixed:
  "\<not> has_next (paginator_page (sra_samples mixed_store) PAGE_SIZE 1)"
  by (simp add: has_next_def paginator_page_def paginator_num_pages_def PAGE_SIZE_def
      sra_samples_mixed)

text \<open>
  Claim C3 fails on the code. The value of \<open>--source-database\<close> has no influence on what
  the driver does: the samples paginated are those of the source database \<open>SRA\<close>, with or
  without computed files. With the argument \<open>GEO\<close>, the first page of the example holds the
  two \<open>SRA\<close> samples and not the \<open>GEO\<close> sample without computed files. The last
  conjunct is about the loop body alone: applied to that page, \<open>requeue_page\<close> requests a
  downloader job for the \<open>SRA\<close> sample without computed files. The driver itself does not
  run the body on a store of a single page.
\<close>

theorem retry_ignores_source_database:
  "handle fuel create_downloader_job \<lparr>opt_source_database = Some a\<rparr> st =
     handle fuel create_downloader_job \<lparr>opt_source_database = Some b\<rparr> st \<and>
   object_list (paginator_page (sra_samples mixed_store) PAGE_SIZE 1) =
     [sra_unprocessed, sra_processed] \<and>
   source_database sra_unprocessed \<noteq> ''GEO'' \<and>
   source_database geo_unprocessed = ''GEO'' \<and> computed_files geo_unprocessed = [] \<and>
   geo_unprocessed \<notin> set (object_list (paginator_page (sra_samples mixed_store) PAGE_SIZE 1)) \<and>
   requeue_page recording_downloader_job
     (object_list (paginator_page (sra_samples mixed_store) PAGE_SIZE 1)) mixed_store =
     mixed_store\<lparr>journal := [CreateDownloaderJob [] True]\<rparr>"
proof -
  have p: "object_list (paginator_page (sra_samples mixed_store) PAGE_SIZE 1) =
     [sra_unprocessed, sra_processed]"
    by (simp add: paginator_page_def sra_samples_mixed PAGE_SIZE_def)
  have q: "requeue_page recording_downloader_job [sra_unprocessed, sra_processed] mixed_store =
     mixed_store\<lparr>journal := [CreateDownloaderJob [] True]\<rparr>"
    by (simp add: requeue_page_def recording_downloader_job_def sra_unprocessed_def
        sra_processed_def sample_original_files_def mixed_store_def store_of_samples_def)
  show ?thesis
    unfolding p q
    by (simp add: handle_def) (simp add: sra_unprocessed_def geo_unprocessed_def sra_processed_def)
qed

text \<open>
  Claim C7 fails on the code. When the samples fit on one page, the driver returns at once
  with the store as it was: the page, which is the last one, is never worked on, although
  it holds a sample without computed files. When they fill two pages, the driver does not
  return, whatever the fuel: it stays on the first page.
\<close>

theorem retry_never_advances:
  "handle (Suc fuel) create_downloader_job \<lparr>opt_source_database = Some ''SRA''\<rparr> mixed_store =
     Some (Inr mixed_store) \<and>
   sra_unprocessed \<in> set (sra_samples mixed_store) \<and> computed_files sra_unprocessed = [] \<and>
   (\<forall>n. handle n create_downloader_job \<lparr>opt_source_database = Some ''SRA''\<rparr> two_page_store = None)"
proof -
  have a: "handle (Suc fuel) create_downloader_job \<lparr>opt_source_database = Some ''SRA''\<rparr>
      mixed_store = Some (Inr mixed_store)"
    using first_page_mixed by (simp add: handle_def)
  have b: "handle n create_downloader_job \<lparr>opt_source_database = Some ''SRA''\<rparr> two_page_store
      = None" for n
    using requeue_loop_same_page[OF first_page_two_page] by (simp add: handle_def)
  show ?thesis using a b by (simp add: sra_samples_mixed) (simp add: sra_unprocessed_def)
qed

section \<open>Properties of the staleness detector\<close>

text \<open>
  Claim C1, amended. For a store with distinct file keys and sound job references, a
  selector that does not read the downloaded flag, and an experiment whose version list has
  at least two entries, the detector returns normally and the jobs it adds are, in order,
  one for each sample of the experiment that is stale (its most recent quantification
  result carries a version other than the latest), has at least one file and for whose
  first file a pipeline is selected. The jobs have distinct keys and each covers exactly
  the files of its sample. No job is added for any other sample, in particular none for a
  sample at the latest version.
\<close>

theorem stale_samples_receive_jobs:
  assumes "ignores_downloaded env" and "wf_store st"
    and "2 \<le> length (salmon_versions_of (get_quant_results_for_experiment env st e))"
  shows "\<exists>st' new.
     update_salmon_versions env e st = Inr st' \<and>
     processor_jobs st' = processor_jobs st @ new \<and>
     distinct (map pj_id new) \<and>
     map (job_original_files st') new =
       map (\<lambda>s. map of_id (sample_original_files st s))
         (filter (\<lambda>s. stale env st (latest_salmon_version env st e) s \<and> receives_job env st s)
            (experiment_samples st e))"
  using assms by (rule update_salmon_versions_jobs)


theorem stale_samples_receive_jobs_witness:
  "ignores_downloaded example_env \<and> wf_store scenario_A \<and>
   2 \<le> length (salmon_versions_of
          (get_quant_results_for_experiment example_env scenario_A experiment_E)) \<and>
   (\<exists>st' new. update_salmon_versions example_env experiment_E scenario_A = Inr st' \<and>
       processor_jobs st' = new \<and> new = [job_J1] \<and>
       map (job_original_files st') new = [[1]])"
proof -
  have h1: "ignores_downloaded example_env" by (rule example_env_ignores_downloaded)
  have h2: "wf_store scenario_A" by (rule scenario_A_facts)
  have h3: "2 \<le> length (salmon_versions_of
          (get_quant_results_for_experiment example_env scenario_A experiment_E))"
    by (simp add: versions_A)
  obtain st' new where r: "update_salmon_versions example_env experiment_E scenario_A = Inr st'"
    "processor_jobs st' = processor_jobs scenario_A @ new"
    "map (job_original_files st') new =
       map (\<lambda>s. map of_id (sample_original_files scenario_A s))
         (filter (\<lambda>s. stale example_env scenario_A
                    (latest_salmon_version example_env scenario_A experiment_E) s \<and>
                  receives_job example_env scenario_A s)
            (experiment_samples scenario_A experiment_E))"
    using stale_samples_receive_jobs [OF h1 h2 h3] by blast
  have e: "processor_jobs scenario_A = []" by (rule scenario_A_facts)
  have f: "map (job_original_files st') new = [[1]]"
    using r(3) unfolding latest_A to_rerun_A by (simp add: scenario_A_facts file_F1_def)
  have j: "new = [job_J1]" using update_A r(1,2) e by auto
  show ?thesis using h1 h2 h3 r(1,2) e f j by simp
qed

text \<open>
  Claim C10. With a version list of at least two entries, a sample of the experiment
  without any quantification result has the annotation \<open>NULL\<close> and is not among the samples
  that the excluding query returns; the jobs added are, in order, those for the stale
  samples among the other samples of the experiment, so none is created for it.
\<close>

theorem sample_without_result_skipped:
  assumes "ignores_downloaded env" and "wf_store st"
    and "2 \<le> length (salmon_versions_of (get_quant_results_for_experiment env st e))"
    and "s \<in> set (experiment_samples st e)"
    and "newest_computational_results env st s = []"
  shows "annotated_salmon_version env st s = None \<and>
     s \<notin> set (samples_to_rerun env st e (latest_salmon_version env st e)) \<and>
     (\<exists>st' new.
        update_salmon_versions env e st = Inr st' \<and>
        processor_jobs st' = processor_jobs st @ new \<and>
        map (job_original_files st') new =
          map (\<lambda>s. map of_id (sample_original_files st s))
            (filter (\<lambda>s. stale env st (latest_salmon_version env st e) s \<and> receives_job env st s)
               (removeAll s (experiment_samples st e))))"
proof -
  let ?P = "\<lambda>s. stale env st (latest_salmon_version env st e) s \<and> receives_job env st s"
  have n: "annotated_salmon_version env st s = None"
    using assms(5) by (simp add: annotated_salmon_version_def)
  then have ns: "\<not> stale env st (latest_salmon_version env st e) s" by (simp add: stale_def)
  then have out: "s \<notin> set (samples_to_rerun env st e (latest_salmon_version env st e))"
    by (simp add: samples_to_rerun_stale)
  have "\<not> ?P s" using ns by simp
  then have rm: "filter ?P (removeAll s (experiment_samples st e)) =
      filter ?P (experiment_samples st e)"
    by (rule filter_removeAll_other)
  obtain st' new where "update_salmon_versions env e st = Inr st'"
    and "processor_jobs st' = processor_jobs st @ new"
    and "map (job_original_files st') new =
       map (\<lambda>s. map of_id (sample_original_files st s)) (filter ?P (experiment_samples st e))"
    using update_salmon_versions_jobs[OF assms(1,2,3)] by blast
  then show ?thesis using n out rm by auto
qed


theorem sample_without_result_skipped_witness:
  "ignores_downloaded example_env \<and> wf_store scenario_C \<and>
   2 \<le> length (salmon_versions_of
          (get_quant_results_for_experiment example_env scenario_C experiment_E)) \<and>
   sample_S2 \<in> set (experiment_samples scenario_C experiment_E) \<and>
   newest_computational_results example_env scenario_C sample_S2 = [] \<and>
   sample_S2 \<notin> set (samples_to_rerun example_env scenario_C experiment_E ''1.0.0'') \<and>
   (\<exists>st' new. update_salmon_versions example_env experiment_E scenario_C = Inr st' \<and>
       processor_jobs st' = new \<and>
       map (job_original_files st') new = [[1]])"
proof -
  have h1: "ignores_downloaded example_env" by (rule example_env_ignores_downloaded)
  have h2: "wf_store scenario_C" by (rule scenario_C_facts)
  have h3: "2 \<le> length (salmon_versions_of
          (get_quant_results_for_experiment example_env scenario_C experiment_E))"
    by (simp add: versions_C)
  have h4: "sample_S2 \<in> set (experiment_samples scenario_C experiment_E)"
    by (simp add: scenario_C_facts)
  have h5: "newest_computational_results example_env scenario_C sample_S2 = []"
    by (rule annotated_C)
  have out: "sample_S2 \<notin> set (samples_to_rerun example_env scenario_C experiment_E ''1.0.0'')"
    using sample_without_result_skipped [OF h1 h2 h3 h4 h5] by (simp add: latest_C)
  obtain st' new where r: "update_salmon_versions example_env experiment_E scenario_C = Inr st'"
    "processor_jobs st' = processor_jobs scenario_C @ new"
    "map (job_original_files st') new =
       map (\<lambda>s. map of_id (sample_original_files scenario_C s))
         (filter (\<lambda>s. stale example_env scenario_C
                    (latest_salmon_version example_env scenario_C experiment_E) s \<and>
                  receives_job example_env scenario_C s)
            (removeAll sample_S2 (experiment_samples scenario_C experiment_E)))"
    using sample_without_result_skipped [OF h1 h2 h3 h4 h5] by blast
  have rm: "removeAll sample_S2 (experiment_samples scenario_C experiment_E) = [sample_S1]"
    using samples_distinct by (simp add: scenario_C_facts)
  have f: "map (job_original_files st') new = [[1]]"
    using r(3) unfolding latest_C rm by (simp add: scenario_C_facts stale_C file_F1_def)
  have e: "processor_jobs scenario_C = []" by (rule scenario_C_facts)
  show ?thesis using h1 h2 h3 h4 h5 out r(1,2) e f by simp
qed

lemma no_job_store_facts:
  "experiment_samples no_job_store experiment_E = [sample_S1, sample_S2, sample_S3]"
  "sample_original_files no_job_store sample_S1 = []"
  "sample_original_files no_job_store sample_S3 = [file_F3]"
  "qs_first (file_samples no_job_store file_F3) = Some sample_S3"
  "processor_jobs no_job_store = []"
  by (simp_all add: experiment_samples_def sample_original_files_def qs_first_def
      file_samples_def no_job_store_def experiment_E_def
      sample_S1_def sample_S2_def sample_S3_def file_F2_def file_F3_def)

lemma versions_no_job:
  "salmon_versions_of (get_quant_results_for_experiment example_env no_job_store experiment_E)
     = [''1.0.0'', ''0.9.0'']"
  by (simp add: example_env_def quant_results_of_def no_job_store_facts
      salmon_versions_of_def version_row_def)
    (simp add: no_job_store_def result_of_def sample_S1_def sample_S2_def sample_S3_def
      version_row_def)

lemma annotated_no_job:
  "annotated_salmon_version example_env no_job_store sample_S1 = Some ''0.9.0''"
  "annotated_salmon_version example_env no_job_store sample_S2 = Some ''1.0.0''"
  "annotated_salmon_version example_env no_job_store sample_S3 = Some ''0.9.0''"
  by (simp_all add: annotated_salmon_version_def newest_computational_results_def
      example_env_def no_job_store_def result_of_def sample_S1_def sample_S2_def sample_S3_def)



text \<open>
  A stale sample does not always receive a job: with two versions in the list, the first
  sample is stale and has no file, the third is stale and its only file selects no
  pipeline. The detector clears the downloaded flag of that file and adds no job.
\<close>

theorem stale_samples_without_job_counterexample:
  "2 \<le> length (salmon_versions_of
          (get_quant_results_for_experiment example_env no_job_store experiment_E)) \<and>
   latest_salmon_version example_env no_job_store experiment_E = ''1.0.0'' \<and>
   sample_S1 \<in> set (experiment_samples no_job_store experiment_E) \<and>
   annotated_salmon_version example_env no_job_store sample_S1 = Some ''0.9.0'' \<and>
   sample_original_files no_job_store sample_S1 = [] \<and>
   sample_S3 \<in> set (experiment_samples no_job_store experiment_E) \<and>
   annotated_salmon_version example_env no_job_store sample_S3 = Some ''0.9.0'' \<and>
   sample_original_files no_job_store sample_S3 = [file_F3] \<and>
   selected_pipeline example_env no_job_store [file_F3] = NONE \<and>
   update_salmon_versions example_env experiment_E no_job_store =
     Inr (no_job_store\<lparr>original_files := [file_F2, file_F3\<lparr>is_downloaded := False\<rparr>],
            journal := [DeleteLocalFile 3, SaveOriginalFile (file_F3\<lparr>is_downloaded := False\<rparr>)]\<rparr>) \<and>
   processor_jobs (no_job_store\<lparr>original_files := [file_F2, file_F3\<lparr>is_downloaded := False\<rparr>],
            journal := [DeleteLocalFile 3, SaveOriginalFile (file_F3\<lparr>is_downloaded := False\<rparr>)]\<rparr>)
     = []"
proof -
  have l: "latest_salmon_version example_env no_job_store experiment_E = ''1.0.0''"
    by (simp add: latest_salmon_version_def versions_no_job)
  have p: "selected_pipeline example_env no_job_store [file_F3] = NONE"
    by (simp add: selected_pipeline_def example_env_def file_F3_def)
  have s: "samples_to_rerun example_env no_job_store experiment_E ''1.0.0'' =
      [sample_S1, sample_S3]"
    by (simp add: samples_to_rerun_def no_job_store_facts annotated_no_job)
  have c1: "create_processor_job_for_original_files example_env [] no_job_store =
      Inr no_job_store"
    by (simp add: create_processor_job_for_original_files_def)
  have c3: "create_processor_job_for_original_files example_env [file_F3] no_job_store =
      Inr (fold clear_downloaded [file_F3] no_job_store)"
    using p
    by (simp add: create_processor_job_for_original_files_def selected_pipeline_def
        no_job_store_facts Let_def)
  have cl: "clear_downloaded file_F3 no_job_store =
      no_job_store\<lparr>original_files := [file_F2, file_F3\<lparr>is_downloaded := False\<rparr>],
            journal := [DeleteLocalFile 3, SaveOriginalFile (file_F3\<lparr>is_downloaded := False\<rparr>)]\<rparr>"
  proof -
    have a: "original_files no_job_store = [file_F2, file_F3]" "journal no_job_store = []"
      by (simp_all add: no_job_store_def)
    have b: "save_original_file (file_F3\<lparr>is_downloaded := False\<rparr>) [file_F2, file_F3] =
        [file_F2, file_F3\<lparr>is_downloaded := False\<rparr>]"
      by (simp add: save_original_file_def file_F2_def file_F3_def)
    have c: "of_id file_F3 = 3" by (simp add: file_F3_def)
    show ?thesis by (simp add: clear_downloaded_def Let_def a b c)
  qed
  have u: "update_salmon_versions example_env experiment_E no_job_store =
     Inr (no_job_store\<lparr>original_files := [file_F2, file_F3\<lparr>is_downloaded := False\<rparr>],
            journal := [DeleteLocalFile 3, SaveOriginalFile (file_F3\<lparr>is_downloaded := False\<rparr>)]\<rparr>)"
    by (simp add: update_salmon_versions_def versions_no_job Let_def s no_job_store_facts c1 c3 cl)
  show ?thesis
    using l p u by (simp add: versions_no_job no_job_store_facts annotated_no_job)
qed


end
